theory Spec2Isabelle
  imports Complex_Main
begin

section \<open>Python values\<close>

text \<open>
  The package is Python 2.7 code on numpy arrays. Python integers are \<open>int\<close>. A float is
  a \<open>pyfloat\<close>: a finite value, an infinity or NaN. Arithmetic on finite values is
  exact here (rounding and overflow are outside the model) and zero carries no sign;
  comparisons and the special values follow IEEE 754, which is what numpy computes
  (warnings are silenced by the package's \<open>simplefilter\<close> calls).
\<close>

datatype pyfloat = Float real | PosInf | NegInf | NaN

fun fle :: "pyfloat \<Rightarrow> pyfloat \<Rightarrow> bool" where
  "fle NaN b = False"
| "fle a NaN = False"
| "fle NegInf b = True"
| "fle a PosInf = True"
| "fle (Float x) (Float y) = (x \<le> y)"
| "fle a b = False"

fun fgt :: "pyfloat \<Rightarrow> pyfloat \<Rightarrow> bool" where
  "fgt NaN b = False"
| "fgt a NaN = False"
| "fgt NegInf b = False"
| "fgt a NegInf = True"
| "fgt PosInf PosInf = False"
| "fgt PosInf b = True"
| "fgt (Float x) (Float y) = (y < x)"
| "fgt a b = False"

fun fsub :: "pyfloat \<Rightarrow> pyfloat \<Rightarrow> pyfloat" where
  "fsub NaN b = NaN"
| "fsub a NaN = NaN"
| "fsub (Float x) (Float y) = Float (x - y)"
| "fsub (Float x) PosInf = NegInf"
| "fsub (Float x) NegInf = PosInf"
| "fsub PosInf PosInf = NaN"
| "fsub PosInf b = PosInf"
| "fsub NegInf NegInf = NaN"
| "fsub NegInf b = NegInf"

definition inf_signed :: "bool \<Rightarrow> pyfloat" where
  "inf_signed positive = (if positive then PosInf else NegInf)"

fun fmul :: "pyfloat \<Rightarrow> pyfloat \<Rightarrow> pyfloat" where
  "fmul NaN b = NaN"
| "fmul a NaN = NaN"
| "fmul (Float x) (Float y) = Float (x * y)"
| "fmul (Float x) PosInf = (if x = 0 then NaN else inf_signed (0 < x))"
| "fmul (Float x) NegInf = (if x = 0 then NaN else inf_signed (x < 0))"
| "fmul PosInf (Float y) = (if y = 0 then NaN else inf_signed (0 < y))"
| "fmul NegInf (Float y) = (if y = 0 then NaN else inf_signed (y < 0))"
| "fmul PosInf PosInf = PosInf"
| "fmul PosInf NegInf = NegInf"
| "fmul NegInf PosInf = NegInf"
| "fmul NegInf NegInf = PosInf"

fun fdiv :: "pyfloat \<Rightarrow> pyfloat \<Rightarrow> pyfloat" where
  "fdiv NaN b = NaN"
| "fdiv a NaN = NaN"
| "fdiv (Float x) (Float y) =
     (if y \<noteq> 0 then Float (x / y) else if x = 0 then NaN else inf_signed (0 < x))"
| "fdiv (Float x) b = Float 0"
| "fdiv PosInf (Float y) = inf_signed (0 \<le> y)"
| "fdiv NegInf (Float y) = inf_signed (y < 0)"
| "fdiv a b = NaN"

text \<open>\<open>pow(10, e)\<close>.\<close>

fun fpow10 :: "pyfloat \<Rightarrow> pyfloat" where
  "fpow10 (Float e) = Float (10 powr e)"
| "fpow10 PosInf = PosInf"
| "fpow10 NegInf = Float 0"
| "fpow10 NaN = NaN"

datatype pyval = PyNone | PyInt int | PyFloat pyfloat | PyStr string

type_synonym pydict = "string \<rightharpoonup> pyval"

datatype py_error =
  KeyError | ValueError | IndexError | TypeError | AssertionError | IOError

text \<open>An exception ends the computation: the rest runs only on a result.\<close>

definition bindE :: "py_error + 'a \<Rightarrow> ('a \<Rightarrow> py_error + 'b) \<Rightarrow> py_error + 'b" where
  "bindE r f = (case r of Inl e \<Rightarrow> Inl e | Inr v \<Rightarrow> f v)"

fun sequenceE :: "(py_error + 'a) list \<Rightarrow> py_error + 'a list" where
  "sequenceE [] = Inr []"
| "sequenceE (r # rs) =
     (case r of Inl e \<Rightarrow> Inl e
      | Inr v \<Rightarrow> (case sequenceE rs of Inl e \<Rightarrow> Inl e | Inr vs \<Rightarrow> Inr (v # vs)))"

section \<open>Strings\<close>

text \<open>\<open>str(n)\<close> and \<open>'{}'.format(n)\<close> of an integer: its decimal digits.\<close>

definition digit_char :: "nat \<Rightarrow> char" where
  "digit_char d = ''0123456789'' ! d"

fun digits_of :: "nat \<Rightarrow> string" where
  "digits_of n = (if n < 10 then [digit_char n] else digits_of (n div 10) @ [digit_char (n mod 10)])"

declare digits_of.simps [simp del]

definition str_int :: "int \<Rightarrow> string" where
  "str_int i = (if i < 0 then CHR ''-'' # digits_of (nat (- i)) else digits_of (nat i))"

definition digit_val :: "char \<Rightarrow> nat option" where
  "digit_val c =
     map_of [(CHR ''0'', 0), (CHR ''1'', 1), (CHR ''2'', 2), (CHR ''3'', 3), (CHR ''4'', 4),
             (CHR ''5'', 5), (CHR ''6'', 6), (CHR ''7'', 7), (CHR ''8'', 8), (CHR ''9'', 9)] c"

definition is_digit :: "char \<Rightarrow> bool" where
  "is_digit c = (digit_val c \<noteq> None)"

definition digits_val :: "string \<Rightarrow> nat" where
  "digits_val ds = foldl (\<lambda>a c. 10 * a + (case digit_val c of Some d \<Rightarrow> d | None \<Rightarrow> 0)) 0 ds"

text \<open>
  \<open>int(s)\<close> of Python 2.7 on a string without surrounding whitespace: an optional sign
  and one or more decimal digits; anything else raises ValueError (\<open>None\<close>).
\<close>

definition py_int_unsigned :: "string \<Rightarrow> int option" where
  "py_int_unsigned ds = (if ds \<noteq> [] \<and> list_all is_digit ds then Some (int (digits_val ds)) else None)"

fun py_int :: "string \<Rightarrow> int option" where
  "py_int [] = None"
| "py_int (c # cs) =
     (if c = CHR ''-'' then map_option uminus (py_int_unsigned cs)
      else if c = CHR ''+'' then py_int_unsigned cs
      else py_int_unsigned (c # cs))"

text \<open>
  \<open>float(s)\<close> on a string without surrounding whitespace: an optional sign, then
  \<open>inf\<close>, \<open>infinity\<close> or \<open>nan\<close> in any case, or a decimal literal (digits, an optional
  fraction with at least one digit on either side of the point, an optional exponent).
\<close>

definition lower :: "string \<Rightarrow> string" where
  "lower s = map (\<lambda>c. if 65 \<le> (of_char c :: nat) \<and> (of_char c :: nat) \<le> 90
                        then char_of ((of_char c :: nat) + 32) else c) s"

definition py_exponent :: "string \<Rightarrow> int option" where
  "py_exponent r =
     (case r of [] \<Rightarrow> Some 0
      | c # cs \<Rightarrow> if c = CHR ''e'' \<or> c = CHR ''E'' then py_int cs else None)"

definition scale10 :: "real \<Rightarrow> int \<Rightarrow> real" where
  "scale10 x e = (if 0 \<le> e then x * 10 ^ nat e else x / 10 ^ nat (- e))"

definition py_float_unsigned :: "string \<Rightarrow> pyfloat option" where
  "py_float_unsigned r =
     (if lower r = ''inf'' \<or> lower r = ''infinity'' then Some PosInf
      else if lower r = ''nan'' then Some NaN
      else
        let ip = takeWhile is_digit r;
            r1 = dropWhile is_digit r;
            fp = (case r1 of [] \<Rightarrow> [] | c # cs \<Rightarrow> if c = CHR ''.'' then takeWhile is_digit cs else []);
            r2 = (case r1 of [] \<Rightarrow> [] | c # cs \<Rightarrow> if c = CHR ''.'' then dropWhile is_digit cs else r1)
        in if ip = [] \<and> fp = [] then None
           else (case py_exponent r2 of
                   None \<Rightarrow> None
                 | Some e \<Rightarrow> Some (Float (scale10 (real (digits_val (ip @ fp))) (e - int (length fp))))))"

fun fneg :: "pyfloat \<Rightarrow> pyfloat" where
  "fneg (Float x) = Float (- x)"
| "fneg PosInf = NegInf"
| "fneg NegInf = PosInf"
| "fneg NaN = NaN"

fun py_float :: "string \<Rightarrow> pyfloat option" where
  "py_float [] = None"
| "py_float (c # cs) =
     (if c = CHR ''-'' then map_option fneg (py_float_unsigned cs)
      else if c = CHR ''+'' then py_float_unsigned cs
      else py_float_unsigned (c # cs))"

text \<open>\<open>s.split()\<close> of a Python 2.7 byte string: the maximal runs of non-whitespace.\<close>

definition is_space :: "char \<Rightarrow> bool" where
  "is_space c = (c \<in> set [CHR 0x20, CHR 0x09, CHR 0x0A, CHR 0x0B, CHR 0x0C, CHR 0x0D])"

fun split_aux :: "string \<Rightarrow> string \<Rightarrow> string list" where
  "split_aux cur [] = (if cur = [] then [] else [cur])"
| "split_aux cur (c # cs) =
     (if is_space c then (if cur = [] then split_aux [] cs else cur # split_aux [] cs)
      else split_aux (cur @ [c]) cs)"

definition py_split :: "string \<Rightarrow> string list" where
  "py_split s = split_aux [] s"

text \<open>
  \<open>'{:.1f}'.format(x)\<close>: one digit after the point, the exact value rounded to the
  nearest tenth, a tie to the even digit.
\<close>

definition round_half_even :: "real \<Rightarrow> int" where
  "round_half_even y =
     (let f = \<lfloor>y\<rfloor>
      in if y - of_int f < 1 / 2 then f
         else if 1 / 2 < y - of_int f then f + 1
         else if even f then f else f + 1)"

definition fmt_1f :: "real \<Rightarrow> string" where
  "fmt_1f x =
     (let m = nat \<bar>round_half_even (x * 10)\<bar>
      in (if x < 0 then ''-'' else []) @ digits_of (m div 10) @ ''.'' @ digits_of (m mod 10))"

text \<open>\<open>os.path.join(a, b)\<close> of posixpath.\<close>

definition os_path_join :: "string \<Rightarrow> string \<Rightarrow> string" where
  "os_path_join a b =
     (if b \<noteq> [] \<and> hd b = CHR ''/'' then b
      else if a = [] \<or> last a = CHR ''/'' then a @ b
      else a @ ''/'' @ b)"

section \<open>numpy arrays\<close>

text \<open>
  A one-dimensional array is the list of its elements. \<open>np.where(cond)[0]\<close> lists the
  indices at which the condition holds; \<open>a[indices]\<close> reads those elements and raises
  IndexError on an index out of range.
\<close>

definition np_where :: "bool list \<Rightarrow> nat list" where
  "np_where cond = filter (\<lambda>k. cond ! k) [0 ..< length cond]"

definition np_take :: "'a list \<Rightarrow> nat list \<Rightarrow> py_error + 'a list" where
  "np_take a indices =
     (if list_all (\<lambda>k. k < length a) indices then Inr (map (\<lambda>k. a ! k) indices)
      else Inl IndexError)"

definition np_concatenate :: "'a list list \<Rightarrow> py_error + 'a list" where
  "np_concatenate arrays = (if arrays = [] then Inl ValueError else Inr (concat arrays))"

text \<open>
  An element-wise operation on two arrays broadcasts an array of length one against
  the other; any other pair of different lengths raises ValueError.
\<close>

definition np_binop :: "('a \<Rightarrow> 'a \<Rightarrow> 'a) \<Rightarrow> 'a list \<Rightarrow> 'a list \<Rightarrow> py_error + 'a list" where
  "np_binop f a b =
     (if length a = length b then Inr (map2 f a b)
      else if length b = 1 then Inr (map (\<lambda>x. f x (hd b)) a)
      else if length a = 1 then Inr (map (\<lambda>y. f (hd a) y) b)
      else Inl ValueError)"

text \<open>
  The builtin \<open>max\<close> over an array: the first element, replaced by each later element
  that compares greater; ValueError on an empty array.
\<close>

definition py_max :: "pyfloat list \<Rightarrow> py_error + pyfloat" where
  "py_max a =
     (case a of [] \<Rightarrow> Inl ValueError
      | x # xs \<Rightarrow> Inr (foldl (\<lambda>m y. if fgt y m then y else m) x xs))"

section \<open>Spectrum and SpectrumArray\<close>

text \<open>
  A \<open>Spectrum\<close> holds three aligned arrays, a reference to its metadata dictionary
  (an address in the heap of dictionaries, \<open>None\<close> when the constructor was given no
  metadata) and the hash of its wavelength raster.
\<close>

record 'h spectrum =
  wavelengths :: "pyfloat list"
  values_arr :: "pyfloat list"
  value_errors :: "pyfloat list"
  metadata :: "nat option"
  raster_hash :: 'h

text \<open>
  Modelled from the spec: the constructor of \<open>Spectrum\<close> (module \<open>spectrum\<close>, not in
  the sources at hand) keeps its arguments and derives \<open>raster_hash\<close> as a content hash
  of the wavelength sequence. The hash function \<open>hash_numpy_array\<close> of the same module
  is the parameter \<open>H\<close>.
\<close>

definition Spectrum ::
  "(pyfloat list \<Rightarrow> 'h) \<Rightarrow> pyfloat list \<Rightarrow> pyfloat list \<Rightarrow> pyfloat list \<Rightarrow> nat option \<Rightarrow> 'h spectrum" where
  "Spectrum H w v e m =
     \<lparr>wavelengths = w, values_arr = v, value_errors = e, metadata = m, raster_hash = H w\<rparr>"

text \<open>A two-dimensional array is the list of its rows.\<close>

record 'h spectrum_array =
  array_wavelengths :: "pyfloat list"
  array_values :: "pyfloat list list"
  array_value_errors :: "pyfloat list list"
  array_raster_hash :: 'h

definition update_raster_hash :: "(pyfloat list \<Rightarrow> 'h) \<Rightarrow> 'h spectrum_array \<Rightarrow> 'h spectrum_array" where
  "update_raster_hash H a = a\<lparr>array_raster_hash := H (array_wavelengths a)\<rparr>"

definition SpectrumArray ::
  "(pyfloat list \<Rightarrow> 'h) \<Rightarrow> pyfloat list \<Rightarrow> pyfloat list list \<Rightarrow> pyfloat list list \<Rightarrow> 'h spectrum_array" where
  "SpectrumArray H w v e =
     update_raster_hash H
       \<lparr>array_wavelengths = w, array_values = v, array_value_errors = e, array_raster_hash = H []\<rparr>"

text \<open>\<open>a[index, :]\<close> with a non-negative index: the row, IndexError past the last row.\<close>

definition np_row :: "'a list list \<Rightarrow> int \<Rightarrow> py_error + 'a list" where
  "np_row a index = (if nat index < length a then Inr (a ! nat index) else Inl IndexError)"

definition extract_item :: "(pyfloat list \<Rightarrow> 'h) \<Rightarrow> 'h spectrum_array \<Rightarrow> int \<Rightarrow> py_error + 'h spectrum" where
  "extract_item H self index =
     (if 0 \<le> index \<and> index < int (length (array_values self)) then
        bindE (np_row (array_values self) index) (\<lambda>v.
        bindE (np_row (array_value_errors self) index) (\<lambda>e.
        Inr (Spectrum H (array_wavelengths self) v e None)))
      else Inl AssertionError)"

section \<open>Dictionaries and files\<close>

text \<open>
  Dictionaries are objects: a \<open>Spectrum\<close>, the metadata store and a local variable may
  refer to the same one. The heap lists the dictionaries allocated so far and a
  reference is an index into it; a new dictionary is appended, so its address is the
  length of the heap before.
\<close>

record fits_row =
  LAMBDA :: pyfloat
  REALISATION :: pyfloat
  FLUENCE :: pyfloat
  SKY :: pyfloat
  SNR :: pyfloat

text \<open>The primary HDU that \<open>make_fits_spectral_template\<close> writes.\<close>

record fits_template =
  hdu_data :: "pyfloat list"
  CRVAL1 :: pyfloat
  CDELT1 :: pyfloat
  ABMAG :: real
  RESOLUTN :: "pyfloat option"

text \<open>
  A line of the template list is kept as its seven columns; the text written joins
  them with spaces after the fixed header line, the two magnitudes printed by
  \<open>str\<close>.
\<close>

record manifest_line =
  OBJECTNAME :: string
  FILENAME :: string
  RULESET :: string
  SIZE :: string
  REDSHIFT :: string
  MAG :: real
  MAG_RANGE :: real

text \<open>
  A file is a text (its lines), a template list, a template written for 4FS, or an
  output of 4FS, of which only the table of its third HDU (one row per pixel) is read.
\<close>

datatype file_content =
  TextFile "string list"
| TemplateList "manifest_line list"
| TemplateFits fits_template
| OutputFits "fits_row list"

record world =
  heap :: "pydict list"
  files :: "string \<rightharpoonup> file_content"

definition dict_new :: "world \<Rightarrow> pydict \<Rightarrow> world \<times> nat" where
  "dict_new w d = (w\<lparr>heap := heap w @ [d]\<rparr>, length (heap w))"

definition dict_copy :: "world \<Rightarrow> nat \<Rightarrow> world \<times> nat" where
  "dict_copy w a = dict_new w (heap w ! a)"

definition dict_set :: "world \<Rightarrow> nat \<Rightarrow> string \<Rightarrow> pyval \<Rightarrow> world" where
  "dict_set w a k v = w\<lparr>heap := (heap w)[a := (heap w ! a)(k \<mapsto> v)]\<rparr>"

definition dict_get :: "world \<Rightarrow> nat option \<Rightarrow> string \<Rightarrow> py_error + pyval" where
  "dict_get w r k =
     (case r of None \<Rightarrow> Inl TypeError
      | Some a \<Rightarrow> (case (heap w ! a) k of None \<Rightarrow> Inl KeyError | Some v \<Rightarrow> Inr v))"

text \<open>\<open>fits.open(name)[2].data\<close>.\<close>

definition fits_open_table :: "world \<Rightarrow> string \<Rightarrow> py_error + fits_row list" where
  "fits_open_table w name =
     (case files w name of
        None \<Rightarrow> Inl IOError
      | Some (OutputFits rows) \<Rightarrow> Inr rows
      | Some (TemplateFits t) \<Rightarrow> Inl IndexError
      | Some other \<Rightarrow> Inl IOError)"

text \<open>\<open>HDUList.writeto(name)\<close> refuses to overwrite a file.\<close>

definition fits_writeto :: "world \<Rightarrow> string \<Rightarrow> fits_template \<Rightarrow> py_error + world" where
  "fits_writeto w name hdu =
     (if name \<in> dom (files w) then Inl IOError
      else Inr (w\<lparr>files := (files w)(name \<mapsto> TemplateFits hdu)\<rparr>))"

text \<open>The lines of a text file; a file of another kind is not read as text here.\<close>

definition read_lines :: "world \<Rightarrow> string \<Rightarrow> py_error + string list" where
  "read_lines w name =
     (case files w name of
        Some (TextFile ls) \<Rightarrow> Inr ls
      | other \<Rightarrow> Inl IOError)"

section \<open>FourFS\<close>

record fourfs =
  run_lrs :: bool
  run_hrs :: bool
  magnitude :: real
  magnitude_unreddened :: bool
  photometric_band :: string
  snr_per_pixel :: bool
  reference_magnitude :: real
  template_counter :: int
  metadata_store :: "int \<rightharpoonup> nat"
  snr_list :: "real list"
  lrs_use_snr_definitions :: "string option list"
  hrs_use_snr_definitions :: "string option list"
  distinct_snr_definitions :: "string list"
  tmp_dir :: string

text \<open>
  \<open>__init__\<close>, without the files it writes into the working directory. An SNR
  definition is a string or \<open>None\<close>. \<open>distinct_snr_definitions\<close> is a Python set, and
  the loops over it run in its iteration order: \<open>set_order\<close> maps the sequence from which
  the set is built to that order (in Python 2.7 string hashes are fixed, so the order is
  a function of that sequence). \<open>pid\<close> is \<open>os.getpid()\<close>.
\<close>

definition default_snr_list :: "real list" where
  "default_snr_list = [10, 12, 14, 16, 18, 20, 23, 26, 30, 35, 40, 45, 50, 80, 100, 130, 180, 250]"

definition default_use_snr_definitions :: "string option list" where
  "default_use_snr_definitions = [Some ''MEDIANSNR'', Some ''MEDIANSNR'', Some ''MEDIANSNR'']"

text \<open>Lines 113 to 115: the definitions that are non-empty strings, in the order listed.\<close>

definition definition_names :: "string option list \<Rightarrow> string list" where
  "definition_names l =
     concat (map (\<lambda>i. case i of None \<Rightarrow> [] | Some s \<Rightarrow> if 0 < length s then [s] else []) l)"

definition FourFS_init ::
  "(string list \<Rightarrow> string list) \<Rightarrow> int \<Rightarrow> real \<Rightarrow> bool \<Rightarrow> string \<Rightarrow> real list option \<Rightarrow> bool \<Rightarrow>
   bool \<Rightarrow> bool \<Rightarrow> string option list option \<Rightarrow> string option list option \<Rightarrow> string \<Rightarrow>
   py_error + fourfs" where
  "FourFS_init set_order pid magnitude_arg magnitude_unreddened_arg photometric_band_arg snr_list_arg
       snr_per_pixel_arg run_lrs_arg run_hrs_arg lrs_arg hrs_arg identifier =
     (let snr_list1 = (case snr_list_arg of None \<Rightarrow> default_snr_list | Some l \<Rightarrow> l);
          lrs1 = (case lrs_arg of None \<Rightarrow> default_use_snr_definitions | Some l \<Rightarrow> l);
          hrs1 = (case hrs_arg of None \<Rightarrow> default_use_snr_definitions | Some l \<Rightarrow> l);
          lrs2 = (if run_lrs_arg then lrs1 else []);
          hrs2 = (if run_hrs_arg then hrs1 else [])
      in if run_lrs_arg \<and> length lrs2 \<noteq> 3 then Inl AssertionError
         else if run_hrs_arg \<and> length hrs2 \<noteq> 3 then Inl AssertionError
         else Inr \<lparr>run_lrs = run_lrs_arg, run_hrs = run_hrs_arg, magnitude = magnitude_arg,
                   magnitude_unreddened = magnitude_unreddened_arg,
                   photometric_band = photometric_band_arg, snr_per_pixel = snr_per_pixel_arg,
                   reference_magnitude = 15.0, template_counter = 0, metadata_store = Map.empty,
                   snr_list = snr_list1, lrs_use_snr_definitions = lrs2,
                   hrs_use_snr_definitions = hrs2,
                   distinct_snr_definitions = set_order (definition_names (lrs2 @ hrs2)),
                   tmp_dir = os_path_join ''/tmp'' (''4fs_'' @ str_int pid @ ''_'' @ identifier)\<rparr>)"

subsection \<open>make_fits_spectral_template\<close>

definition fadd :: "pyfloat \<Rightarrow> pyfloat \<Rightarrow> pyfloat" where
  "fadd a b = fsub a (fneg b)"

definition fmin :: "pyfloat \<Rightarrow> pyfloat \<Rightarrow> pyfloat" where
  "fmin a b = (if a = NaN \<or> b = NaN then NaN else if fle a b then a else b)"

definition np_min :: "pyfloat list \<Rightarrow> py_error + pyfloat" where
  "np_min a = (case a of [] \<Rightarrow> Inl ValueError | x # xs \<Rightarrow> Inr (foldl fmin x xs))"

definition np_mean :: "pyfloat list \<Rightarrow> pyfloat" where
  "np_mean a = fdiv (foldl fadd (Float 0) a) (Float (real (length a)))"

text \<open>A number read from a dictionary, for arithmetic with a float.\<close>

definition as_float :: "pyval \<Rightarrow> py_error + pyfloat" where
  "as_float v =
     (case v of PyInt n \<Rightarrow> Inr (Float (real_of_int n)) | PyFloat f \<Rightarrow> Inr f | other \<Rightarrow> Inl TypeError)"

text \<open>
  Lines 197 to 212: the data to emit. The flag tells whether \<open>data\<close> is the very array
  of \<open>input_spectrum.values\<close> (then the in-place multiplication below changes the input
  spectrum too) or a new array.
\<close>

definition template_data ::
  "'h spectrum \<Rightarrow> 'h spectrum option \<Rightarrow> bool \<Rightarrow> py_error + (pyfloat list \<times> bool)" where
  "template_data input_spectrum input_spectrum_continuum_normalised continuum_only =
     (let flux = values_arr input_spectrum
      in case input_spectrum_continuum_normalised of
           None \<Rightarrow> Inr (flux, True)
         | Some cn \<Rightarrow>
             if raster_hash input_spectrum = raster_hash cn then
               (if \<not> continuum_only then Inr (flux, True)
                else bindE (np_binop fdiv flux (values_arr cn)) (\<lambda>data. Inr (data, False)))
             else Inl AssertionError)"

text \<open>
  Lines 223 to 226: the magnitude in the photometric band, less the reddening when the
  magnitude is the unreddened one. \<open>Spectrum.photometry\<close> is not in the sources at hand
  and is the parameter \<open>photometry\<close>.
\<close>

definition template_magnitude ::
  "('h spectrum \<Rightarrow> string \<Rightarrow> py_error + pyfloat) \<Rightarrow> fourfs \<Rightarrow> world \<Rightarrow> 'h spectrum \<Rightarrow> 'h spectrum \<Rightarrow>
   py_error + pyfloat" where
  "template_magnitude photometry self w input_spectrum fits_spectrum =
     bindE (photometry fits_spectrum (photometric_band self)) (\<lambda>magnitude0.
       if magnitude_unreddened self then
         bindE (dict_get w (metadata input_spectrum) (''A_'' @ photometric_band self)) (\<lambda>a.
         bindE (as_float a) (\<lambda>r. Inr (fsub magnitude0 r)))
       else Inr magnitude0)"

definition scale_factor :: "fourfs \<Rightarrow> pyfloat \<Rightarrow> pyfloat" where
  "scale_factor self magnitude0 =
     fpow10 (fmul (Float (- 0.4)) (fsub (Float (reference_magnitude self)) magnitude0))"

text \<open>
  Lines 231 to 241: a value stored in the header of the HDU. \<open>astropy\<close> refuses a
  floating point value that is infinite or NaN with ValueError.
\<close>

definition header_value :: "pyfloat \<Rightarrow> py_error + pyfloat" where
  "header_value v = (case v of Float x \<Rightarrow> Inr v | other \<Rightarrow> Inl ValueError)"

definition make_fits_spectral_template ::
  "(pyfloat list \<Rightarrow> 'h) \<Rightarrow> ('h spectrum \<Rightarrow> string \<Rightarrow> py_error + pyfloat) \<Rightarrow> fourfs \<Rightarrow> world \<Rightarrow>
   'h spectrum \<Rightarrow> 'h spectrum option \<Rightarrow> string \<Rightarrow> pyfloat option \<Rightarrow> bool \<Rightarrow>
   py_error + (world \<times> 'h spectrum)" where
  "make_fits_spectral_template H photometry self w input_spectrum input_spectrum_continuum_normalised
       output_filename resolution continuum_only =
     (let wavelength_raster = wavelengths input_spectrum
      in bindE (template_data input_spectrum input_spectrum_continuum_normalised continuum_only)
           (\<lambda>(data, in_place).
         bindE (np_min wavelength_raster) (\<lambda>lambda_min.
         bindE (if 1 < length wavelength_raster
                then Inr (fsub (wavelength_raster ! 1) (wavelength_raster ! 0))
                else Inl IndexError) (\<lambda>delta_lambda.
         let (w1, m) = dict_new w Map.empty;
             fits_spectrum = Spectrum H wavelength_raster data
                               (map (\<lambda>x. Float 0) wavelength_raster) (Some m)
         in bindE (template_magnitude photometry self w1 input_spectrum fits_spectrum) (\<lambda>magnitude1.
            let data1 = map (\<lambda>x. fmul x (scale_factor self magnitude1)) data
            in bindE (header_value lambda_min) (\<lambda>crval1.
               bindE (header_value delta_lambda) (\<lambda>cdelt1.
               bindE (case resolution of None \<Rightarrow> Inr None
                      | Some r \<Rightarrow> bindE (header_value (np_mean (map (\<lambda>x. fdiv x r) wavelength_raster)))
                                    (\<lambda>fwhm_res. Inr (Some fwhm_res))) (\<lambda>resolutn.
               let hdu_1 = \<lparr>hdu_data = data1, CRVAL1 = crval1, CDELT1 = cdelt1,
                            ABMAG = reference_magnitude self, RESOLUTN = resolutn\<rparr>
               in bindE (fits_writeto w1 (os_path_join (tmp_dir self) output_filename) hdu_1) (\<lambda>w2.
                  Inr (w2, if in_place then input_spectrum\<lparr>values_arr := data1\<rparr>
                           else input_spectrum))))))))))"

subsection \<open>generate_4fs_template_list\<close>








subsection \<open>combine_spectra\<close>

definition bands :: "string list" where
  "bands = [''blue'', ''green'', ''red'']"

definition signal_filename :: "string \<Rightarrow> int \<Rightarrow> real \<Rightarrow> string \<Rightarrow> string \<Rightarrow> string \<Rightarrow> string" where
  "signal_filename path i snr snr_definition setup band =
     os_path_join path (''specout_template_template_'' @ str_int i @ ''_SNR'' @ fmt_1f snr @ ''_''
                        @ snr_definition @ ''_'' @ setup @ ''_'' @ band @ ''.fits'')"

definition continuum_filename :: "string \<Rightarrow> int \<Rightarrow> string \<Rightarrow> string \<Rightarrow> string" where
  "continuum_filename path i setup band =
     os_path_join path (''specout_template_template_'' @ str_int i @ ''_c_'' @ setup @ ''_'' @ band
                        @ ''.fits'')"

text \<open>Lines 396 to 413: one line of the summary file, and the loop over its lines.\<close>

definition summary_line :: "string \<Rightarrow> (string \<rightharpoonup> pyfloat) \<Rightarrow> py_error + (string \<rightharpoonup> pyfloat)" where
  "summary_line line exposure_times =
     (let words = py_split line
      in if length words < 6 then Inr exposure_times
         else (case py_int (words ! 0) of
                 None \<Rightarrow> Inr exposure_times
               | Some run_counter \<Rightarrow>
                   bindE (if words ! 5 = ''nan'' then Inr NaN
                          else (case py_float (words ! 5) of
                                  None \<Rightarrow> Inl ValueError | Some t \<Rightarrow> Inr t)) (\<lambda>t_exposure.
                   Inr (exposure_times(str_int run_counter \<mapsto> t_exposure)))))"

fun parse_summary :: "string list \<Rightarrow> (string \<rightharpoonup> pyfloat) \<Rightarrow> py_error + (string \<rightharpoonup> pyfloat)" where
  "parse_summary [] exposure_times = Inr exposure_times"
| "parse_summary (line # rest) exposure_times =
     bindE (summary_line line exposure_times) (parse_summary rest)"

text \<open>
  Lines 424 to 439: the table of band \<open>j\<close>, read from the output of 4FS, or the empty
  placeholder when the band has no SNR definition. A table is the list of its rows, so
  the placeholder of five empty columns is the empty list.
\<close>

definition load_band ::
  "world \<Rightarrow> string \<Rightarrow> string \<Rightarrow> string option list \<Rightarrow> int \<Rightarrow> real \<Rightarrow> nat \<Rightarrow> py_error + fits_row list" where
  "load_band w path setup snr_definitions i snr j =
     (if j < length snr_definitions then
        (case snr_definitions ! j of
           None \<Rightarrow> Inr []
         | Some snr_definition \<Rightarrow>
             if 0 < length snr_definition
             then fits_open_table w (signal_filename path i snr snr_definition setup (bands ! j))
             else Inr [])
      else Inl IndexError)"

definition load_arms ::
  "world \<Rightarrow> string \<Rightarrow> string \<Rightarrow> string option list \<Rightarrow> int \<Rightarrow> real \<Rightarrow> py_error + fits_row list list" where
  "load_arms w path setup snr_definitions i snr =
     sequenceE (map (load_band w path setup snr_definitions i snr) [0 ..< length bands])"

text \<open>Lines 449 to 458: the index sets of the three windows, and the arms cut to them.\<close>

definition lrs_indices :: "pyfloat list list \<Rightarrow> nat list list" where
  "lrs_indices wl =
     [np_where (map (\<lambda>x. fle x (Float 5327.7)) (wl ! 0)),
      np_where (map (\<lambda>x. fgt x (Float 5327.7) \<and> fle x (Float 7031.7)) (wl ! 1)),
      np_where (map (\<lambda>x. fgt x (Float 7031.7)) (wl ! 2))]"

definition take_arms :: "nat list list \<Rightarrow> 'a list list \<Rightarrow> py_error + 'a list list" where
  "take_arms indices arrays =
     sequenceE (map (\<lambda>(j, item). np_take item (indices ! j)) (enumerate 0 arrays))"

text \<open>
  Lines 442 to 464: the stitched wavelengths, fluxes and SNRs, and the fluences of the
  three arms (cut in LRS mode), which the continuum step uses.
\<close>

definition stitch_arms ::
  "string \<Rightarrow> fits_row list list \<Rightarrow>
   py_error + (pyfloat list \<times> pyfloat list \<times> pyfloat list \<times> pyfloat list list)" where
  "stitch_arms setup d =
     (let wavelengths0 = map (map LAMBDA) d;
          fluences0 = map (map FLUENCE) d;
          snrs0 = map (map SNR) d
      in bindE (sequenceE (map (\<lambda>item. np_binop fsub (map REALISATION item) (map SKY item)) d))
           (\<lambda>fluxes0.
         bindE (if setup = ''LRS'' then
                  (let indices = lrs_indices wavelengths0
                   in bindE (take_arms indices wavelengths0) (\<lambda>wl.
                      bindE (take_arms indices fluxes0) (\<lambda>fx.
                      bindE (take_arms indices fluences0) (\<lambda>fl.
                      bindE (take_arms indices snrs0) (\<lambda>sn.
                      Inr (wl, fx, fl, sn))))))
                else Inr (wavelengths0, fluxes0, fluences0, snrs0))
           (\<lambda>(wl, fx, fl, sn).
         bindE (np_concatenate wl) (\<lambda>wavelengths_final.
         bindE (np_concatenate fx) (\<lambda>fluxes_final.
         bindE (np_concatenate sn) (\<lambda>snrs_final.
         Inr (wavelengths_final, fluxes_final, snrs_final, fl)))))))"

text \<open>Lines 472 to 497: the continuum arms, rescaled and stitched, and the ratio.\<close>

definition rescale_continuum :: "pyfloat list \<Rightarrow> pyfloat list \<Rightarrow> py_error + pyfloat list" where
  "rescale_continuum fluence fluence_c =
     bindE (py_max fluence) (\<lambda>peak.
     bindE (py_max fluence_c) (\<lambda>peak_c.
     Inr (map (\<lambda>x. fdiv (fmul x peak) peak_c) fluence_c)))"

definition load_continuum :: "world \<Rightarrow> string \<Rightarrow> string \<Rightarrow> int \<Rightarrow> py_error + fits_row list list" where
  "load_continuum w path setup i =
     sequenceE (map (\<lambda>band. fits_open_table w (continuum_filename path i setup band)) bands)"

definition stitch_continuum ::
  "string \<Rightarrow> pyfloat list list \<Rightarrow> fits_row list list \<Rightarrow> py_error + pyfloat list" where
  "stitch_continuum setup fluences d_c =
     (let wavelengths_c = map (map LAMBDA) d_c;
          fluences_c0 = map (map FLUENCE) d_c
      in bindE (if setup = ''LRS'' then take_arms (lrs_indices wavelengths_c) fluences_c0
                else Inr fluences_c0) (\<lambda>fluences_c.
         bindE (sequenceE (map (\<lambda>(fluence, fluence_c). rescale_continuum fluence fluence_c)
                             (filter (\<lambda>(fluence, fluence_c). 0 < length fluence)
                                (zip fluences fluences_c)))) (\<lambda>parts.
         np_concatenate parts)))"

definition continuum_normalise ::
  "world \<Rightarrow> string \<Rightarrow> string \<Rightarrow> int \<Rightarrow> pyfloat list \<Rightarrow> pyfloat list list \<Rightarrow> py_error + pyfloat list" where
  "continuum_normalise w path setup i fluxes_final fluences =
     bindE (load_continuum w path setup i) (\<lambda>d_c.
     bindE (stitch_continuum setup fluences d_c) (\<lambda>fluxes_final_c.
     np_binop fdiv fluxes_final fluxes_final_c))"

text \<open>Lines 501 and 502: the pixels above 2 or not above 0 are overwritten with 0.\<close>

definition remove_bad_pixels :: "pyfloat list \<Rightarrow> pyfloat list" where
  "remove_bad_pixels a =
     foldl (\<lambda>b k. b[k := Float 0]) a (np_where (map (\<lambda>x. fgt x (Float 2.0) \<or> fle x (Float 0.00)) a))"

text \<open>\<open>sep.join(items)\<close> raises TypeError on an item that is not a string.\<close>

fun join_strings :: "string \<Rightarrow> string list \<Rightarrow> string" where
  "join_strings sep [] = []"
| "join_strings sep [x] = x"
| "join_strings sep (x # y # rest) = x @ sep @ join_strings sep (y # rest)"

definition py_join :: "string \<Rightarrow> string option list \<Rightarrow> py_error + string" where
  "py_join sep items =
     (if list_all (\<lambda>x. x \<noteq> None) items then Inr (join_strings sep (map the items))
      else Inl TypeError)"

text \<open>Lines 514 to 517: the value stored under \<open>snr_definition\<close>.\<close>

definition snr_definition_label :: "string option list \<Rightarrow> py_error + pyval" where
  "snr_definition_label snr_definitions =
     (if length snr_definitions < 3 then Inl IndexError
      else if snr_definitions ! 0 = snr_definitions ! 1 \<and> snr_definitions ! 1 = snr_definitions ! 2
      then Inr (case snr_definitions ! 0 of None \<Rightarrow> PyNone | Some s \<Rightarrow> PyStr s)
      else bindE (py_join '','' snr_definitions) (\<lambda>s. Inr (PyStr s)))"

record 'h output_entry =
  spectrum :: "'h spectrum"
  spectrum_continuum_normalised :: "'h spectrum option"

text \<open>
  Lines 466 to 502: the continuum-normalised fluxes with the bad pixels removed, when
  the continuum output of the blue band exists, and \<open>None\<close> otherwise.
\<close>

definition normalised_fluxes ::
  "world \<Rightarrow> string \<Rightarrow> string \<Rightarrow> int \<Rightarrow> pyfloat list \<Rightarrow> pyfloat list list \<Rightarrow>
   py_error + pyfloat list option" where
  "normalised_fluxes w path setup i fluxes_final fluences =
     (let have_continuum_version = (continuum_filename path i setup (bands ! 0) \<in> dom (files w))
      in if have_continuum_version
         then bindE (continuum_normalise w path setup i fluxes_final fluences) (\<lambda>raw.
              Inr (Some (remove_bad_pixels raw)))
         else Inr None)"

text \<open>Line 512: \<open>exposure_times.get(str(run_counter), np.nan)\<close>.\<close>

definition exposure_get :: "(string \<rightharpoonup> pyfloat) \<Rightarrow> int \<Rightarrow> pyfloat" where
  "exposure_get exposure_times run_counter =
     (case exposure_times (str_int run_counter) of None \<Rightarrow> NaN | Some t \<Rightarrow> t)"

text \<open>
  Lines 505 to 517: the stored dictionary of template \<open>i\<close> is looked up and written to.
  The result is the world after the writes and the address of that dictionary.
\<close>

definition attach_metadata ::
  "fourfs \<Rightarrow> string option list \<Rightarrow> (string \<rightharpoonup> pyfloat) \<Rightarrow> world \<Rightarrow> int \<Rightarrow> int \<Rightarrow> real \<Rightarrow>
   py_error + (world \<times> nat)" where
  "attach_metadata self snr_definitions exposure_times w run_counter i snr =
     bindE (case metadata_store self i of None \<Rightarrow> Inl KeyError | Some a \<Rightarrow> Inr a) (\<lambda>meta.
     let w1 = dict_set w meta ''continuum_normalised'' (PyInt 0);
         w2 = dict_set w1 meta ''SNR'' (PyFloat (Float snr));
         w3 = dict_set w2 meta ''SNR_per'' (PyStr (if snr_per_pixel self then ''pixel'' else ''A''));
         w4 = dict_set w3 meta ''magnitude'' (PyFloat (Float (magnitude self)));
         w5 = dict_set w4 meta ''exposure'' (PyFloat (exposure_get exposure_times run_counter))
     in bindE (snr_definition_label snr_definitions) (\<lambda>label.
        Inr (dict_set w5 meta ''snr_definition'' label, meta)))"

text \<open>
  Lines 519 to 537: the two output spectra, each with its own copy of the stored
  dictionary.
\<close>

definition make_outputs ::
  "(pyfloat list \<Rightarrow> 'h) \<Rightarrow> world \<Rightarrow> nat \<Rightarrow> pyfloat list \<Rightarrow> pyfloat list \<Rightarrow> pyfloat list \<Rightarrow>
   pyfloat list option \<Rightarrow> py_error + ('h output_entry \<times> world)" where
  "make_outputs H w meta wavelengths_final fluxes_final snrs_final normalised_fluxes_final =
     bindE (np_binop fdiv fluxes_final snrs_final) (\<lambda>errors.
     let (w1, m1) = dict_copy w meta;
         spectrum1 = Spectrum H wavelengths_final fluxes_final errors (Some m1)
     in case normalised_fluxes_final of
          None \<Rightarrow> Inr (\<lparr>spectrum = spectrum1, spectrum_continuum_normalised = None\<rparr>, w1)
        | Some normalised \<Rightarrow>
            (let w2 = dict_set w1 meta ''continuum_normalised'' (PyInt 1)
             in bindE (np_binop fdiv normalised snrs_final) (\<lambda>errors_c.
                let (w3, m2) = dict_copy w2 meta
                in Inr (\<lparr>spectrum = spectrum1,
                         spectrum_continuum_normalised =
                           Some (Spectrum H wavelengths_final normalised errors_c (Some m2))\<rparr>,
                        w3))))"

text \<open>
  The body of the inner loop, lines 423 to 537, for template \<open>i\<close> and \<open>snr\<close>, with the
  run counter as line 421 has just incremented it. \<open>snr_definitions\<close> is the reversed
  tuple of line 393.
\<close>

definition combine_one ::
  "(pyfloat list \<Rightarrow> 'h) \<Rightarrow> fourfs \<Rightarrow> string \<Rightarrow> string \<Rightarrow> string option list \<Rightarrow> (string \<rightharpoonup> pyfloat) \<Rightarrow>
   world \<Rightarrow> int \<Rightarrow> int \<Rightarrow> real \<Rightarrow> py_error + ('h output_entry \<times> world)" where
  "combine_one H self path setup snr_definitions exposure_times w run_counter i snr =
     bindE (load_arms w path setup snr_definitions i snr) (\<lambda>d.
     bindE (stitch_arms setup d) (\<lambda>(wavelengths_final, fluxes_final, snrs_final, fluences).
     bindE (normalised_fluxes w path setup i fluxes_final fluences) (\<lambda>normalised_fluxes_final.
     bindE (attach_metadata self snr_definitions exposure_times w run_counter i snr) (\<lambda>(w1, meta).
     make_outputs H w1 meta wavelengths_final fluxes_final snrs_final normalised_fluxes_final))))"

text \<open>The loops of lines 418 to 537. The state is the run counter, the output and the world.\<close>

fun snr_loop ::
  "(pyfloat list \<Rightarrow> 'h) \<Rightarrow> fourfs \<Rightarrow> string \<Rightarrow> string \<Rightarrow> string option list \<Rightarrow> (string \<rightharpoonup> pyfloat) \<Rightarrow>
   int \<Rightarrow> real list \<Rightarrow> int \<times> (real \<rightharpoonup> 'h output_entry) \<times> world \<Rightarrow>
   py_error + (int \<times> (real \<rightharpoonup> 'h output_entry) \<times> world)" where
  "snr_loop H self path setup snr_definitions exposure_times i [] st = Inr st"
| "snr_loop H self path setup snr_definitions exposure_times i (snr # rest) st =
     (case st of (run_counter, output_i, w) \<Rightarrow>
        bindE (combine_one H self path setup snr_definitions exposure_times w (run_counter + 1) i snr)
          (\<lambda>(entry, w1).
        snr_loop H self path setup snr_definitions exposure_times i rest
          (run_counter + 1, output_i(snr \<mapsto> entry), w1)))"

fun template_loop ::
  "(pyfloat list \<Rightarrow> 'h) \<Rightarrow> fourfs \<Rightarrow> string \<Rightarrow> string \<Rightarrow> string option list \<Rightarrow> (string \<rightharpoonup> pyfloat) \<Rightarrow>
   int list \<Rightarrow> int \<times> (int \<rightharpoonup> (real \<rightharpoonup> 'h output_entry)) \<times> world \<Rightarrow>
   py_error + (int \<times> (int \<rightharpoonup> (real \<rightharpoonup> 'h output_entry)) \<times> world)" where
  "template_loop H self path setup snr_definitions exposure_times [] st = Inr st"
| "template_loop H self path setup snr_definitions exposure_times (i # rest) st =
     (case st of (run_counter, output, w) \<Rightarrow>
        bindE (snr_loop H self path setup snr_definitions exposure_times i (snr_list self)
                 (run_counter, Map.empty, w)) (\<lambda>(run_counter1, output_i, w1).
        template_loop H self path setup snr_definitions exposure_times rest
          (run_counter1, output(i \<mapsto> output_i), w1)))"

definition combine_spectra ::
  "(pyfloat list \<Rightarrow> 'h) \<Rightarrow> fourfs \<Rightarrow> world \<Rightarrow> int list \<Rightarrow> string \<Rightarrow> string \<Rightarrow>
   py_error + ((int \<rightharpoonup> (real \<rightharpoonup> 'h output_entry)) \<times> world)" where
  "combine_spectra H self w template_numbers_arg path setup =
     (let snr_definitions = rev (if setup = ''LRS'' then lrs_use_snr_definitions self
                                 else hrs_use_snr_definitions self)
      in bindE (read_lines w (os_path_join path ''4FS_ETC_summary.txt'')) (\<lambda>summary.
         bindE (parse_summary summary Map.empty) (\<lambda>exposure_times.
         bindE (template_loop H self path setup snr_definitions exposure_times template_numbers_arg
                  (0, Map.empty, w)) (\<lambda>(run_counter, output, w1).
         Inr (output, w1)))))"

section \<open>The specification's words\<close>

text \<open>
  The windows of the two cutover wavelengths, as the specification states them: the
  lower arm keeps the wavelengths up to the first cutover, the middle arm those
  strictly above the first and up to the second, the upper arm those strictly above
  the second. \<open>cut_arms\<close> applies them in the low-resolution mode and leaves the arms
  whole otherwise.
\<close>

definition blue_window :: "fits_row \<Rightarrow> bool" where
  "blue_window p = fle (LAMBDA p) (Float 5327.7)"

definition green_window :: "fits_row \<Rightarrow> bool" where
  "green_window p = (fgt (LAMBDA p) (Float 5327.7) \<and> fle (LAMBDA p) (Float 7031.7))"

definition red_window :: "fits_row \<Rightarrow> bool" where
  "red_window p = fgt (LAMBDA p) (Float 7031.7)"

definition cut_arms :: "string \<Rightarrow> fits_row list list \<Rightarrow> fits_row list list" where
  "cut_arms setup d =
     (if setup = ''LRS''
      then [filter blue_window (d ! 0), filter green_window (d ! 1), filter red_window (d ! 2)]
      else d)"

text \<open>The sky-subtracted signal of a pixel.\<close>

definition flux_of :: "fits_row \<Rightarrow> pyfloat" where
  "flux_of p = fsub (REALISATION p) (SKY p)"

text \<open>
  A peak of an array: one of its values that no value of the array exceeds. Without NaN
  among the values it is their maximum.
\<close>

definition is_peak :: "pyfloat list \<Rightarrow> pyfloat \<Rightarrow> bool" where
  "is_peak a m = (m \<in> set a \<and> (\<forall>x\<in>set a. \<not> fgt x m))"

text \<open>
  The rescaled continuum of an arm with signal fluence \<open>s\<close> and continuum fluence \<open>c\<close>:
  every value of \<open>c\<close> multiplied by a peak of \<open>s\<close> and then divided by a peak of \<open>c\<close>, in
  this order.
\<close>

definition rescaled_arm :: "pyfloat list \<times> pyfloat list \<Rightarrow> pyfloat list \<Rightarrow> bool" where
  "rescaled_arm arm part =
     (\<exists>ps\<in>set (fst arm). \<exists>pc\<in>set (snd arm). is_peak (fst arm) ps \<and> is_peak (snd arm) pc
        \<and> part = map (\<lambda>x. fdiv (fmul x ps) pc) (snd arm))"

text \<open>
  The quotient of two arrays as numpy forms it: pixel by pixel when they have the same
  number of pixels; otherwise every pixel of the first by the only pixel of the second,
  or the only pixel of the first by every pixel of the second.
\<close>

definition numpy_divided :: "pyfloat list \<Rightarrow> pyfloat list \<Rightarrow> pyfloat list \<Rightarrow> bool" where
  "numpy_divided a b r =
     (if length a = length b then r = map2 fdiv a b
      else if length b = 1 then r = map (\<lambda>x. fdiv x (b ! 0)) a
      else length a = 1 \<and> r = map (\<lambda>y. fdiv (a ! 0) y) b)"

text \<open>
  What a call of the combiner needs from the output directory for the template \<open>i\<close> at
  \<open>snr\<close>: the signal output of every band that has a non-empty SNR definition; and
  either no continuum output for the blue band, the one whose presence the combiner
  tests, or continuum outputs that, cut to the windows, have in each arm as many pixels
  as the signal, at least one pixel in all.
\<close>

definition signal_outputs_present ::
  "world \<Rightarrow> string \<Rightarrow> string \<Rightarrow> string option list \<Rightarrow> int \<Rightarrow> real \<Rightarrow> bool" where
  "signal_outputs_present w path setup sd i snr =
     list_all (\<lambda>j. case sd ! j of
                      None \<Rightarrow> True
                    | Some s \<Rightarrow> s = [] \<or>
                        (case files w (signal_filename path i snr s setup (bands ! j)) of
                           Some (OutputFits rows) \<Rightarrow> True
                         | other \<Rightarrow> False)) [0, 1, 2]"

definition continuum_absent :: "world \<Rightarrow> string \<Rightarrow> string \<Rightarrow> int \<Rightarrow> bool" where
  "continuum_absent w path setup i = (files w (continuum_filename path i setup ''blue'') = None)"

definition continuum_aligned ::
  "world \<Rightarrow> string \<Rightarrow> string \<Rightarrow> string option list \<Rightarrow> int \<Rightarrow> real \<Rightarrow> bool" where
  "continuum_aligned w path setup sd i snr =
     (case (load_arms w path setup sd i snr, load_continuum w path setup i) of
        (Inr d, Inr d_c) \<Rightarrow>
          list_all2 (\<lambda>s c. length s = length c) (cut_arms setup d) (cut_arms setup d_c)
          \<and> concat (cut_arms setup d) \<noteq> []
      | other \<Rightarrow> False)"

definition pair_ready ::
  "world \<Rightarrow> string \<Rightarrow> string \<Rightarrow> string option list \<Rightarrow> int \<Rightarrow> real \<Rightarrow> bool" where
  "pair_ready w path setup sd i snr =
     (signal_outputs_present w path setup sd i snr
      \<and> (continuum_absent w path setup i \<or> continuum_aligned w path setup sd i snr))"

text \<open>
  The SNR definitions of a mode in the order of the bands (blue, green, red), and when
  the combiner can label them: all three equal, or all three strings.
\<close>

definition mode_definitions :: "fourfs \<Rightarrow> string \<Rightarrow> string option list" where
  "mode_definitions self setup =
     rev (if setup = ''LRS'' then lrs_use_snr_definitions self else hrs_use_snr_definitions self)"

definition labelled :: "string option list \<Rightarrow> bool" where
  "labelled sd =
     (length sd = 3 \<and> ((sd ! 0 = sd ! 1 \<and> sd ! 1 = sd ! 2) \<or> list_all (\<lambda>x. x \<noteq> None) sd))"

text \<open>The entry of the result for template \<open>i\<close> at \<open>snr\<close>.\<close>

definition output_at ::
  "(int \<rightharpoonup> (real \<rightharpoonup> 'h output_entry)) \<Rightarrow> int \<Rightarrow> real \<Rightarrow> 'h output_entry option" where
  "output_at output i snr = (case output i of None \<Rightarrow> None | Some output_i \<Rightarrow> output_i snr)"

text \<open>
  The exposure time of run \<open>r\<close> as the specification words it: the time parsed from the
  summary line whose first field is the integer \<open>r\<close> (the last such line, should there
  be several), NaN when there is none. A line counts when it has its six fields.
\<close>

definition line_run :: "string \<Rightarrow> int option" where
  "line_run line = (if 6 \<le> length (py_split line) then py_int (py_split line ! 0) else None)"

definition line_exposure :: "string \<Rightarrow> pyfloat option" where
  "line_exposure line =
     (if py_split line ! 5 = ''nan'' then Some NaN else py_float (py_split line ! 5))"

text \<open>A summary parses when every line that is kept has a sixth field that is a float.\<close>

definition summary_parses :: "string list \<Rightarrow> bool" where
  "summary_parses summary =
     list_all (\<lambda>line. line_run line = None \<or> line_exposure line \<noteq> None) summary"

definition summary_exposure :: "string list \<Rightarrow> int \<Rightarrow> pyfloat" where
  "summary_exposure summary r =
     (case filter (\<lambda>line. line_run line = Some r) summary of
        [] \<Rightarrow> NaN
      | line # rest \<Rightarrow> (case line_exposure (last (line # rest)) of None \<Rightarrow> NaN | Some t \<Rightarrow> t))"

text \<open>The value under \<open>exposure\<close> in the metadata of a spectrum, and of both spectra of a pair.\<close>

definition exposure_of_spectrum :: "world \<Rightarrow> 'h spectrum \<Rightarrow> pyval option" where
  "exposure_of_spectrum w s = (case metadata s of None \<Rightarrow> None | Some m \<Rightarrow> (heap w ! m) ''exposure'')"

definition exposure_recorded :: "world \<Rightarrow> 'h output_entry \<Rightarrow> pyfloat \<Rightarrow> bool" where
  "exposure_recorded w entry t =
     (exposure_of_spectrum w (spectrum entry) = Some (PyFloat t)
      \<and> (case spectrum_continuum_normalised entry of
           None \<Rightarrow> True
         | Some sc \<Rightarrow> exposure_of_spectrum w sc = Some (PyFloat t)))"




section \<open>Invariants of the heap\<close>

text \<open>
  \<open>frame S w w'\<close>: from \<open>w\<close> to \<open>w'\<close> the heap has only grown, the files are the same, and
  every dictionary of \<open>w\<close> outside the addresses \<open>S\<close> is unchanged. \<open>fresh_entry S w entry\<close>:
  the dictionaries of the spectra of \<open>entry\<close> are allocated and outside \<open>S\<close>.
\<close>

definition frame :: "nat set \<Rightarrow> world \<Rightarrow> world \<Rightarrow> bool" where
  "frame S w w' =
     (length (heap w) \<le> length (heap w') \<and> files w' = files w
      \<and> (\<forall>m < length (heap w). m \<notin> S \<longrightarrow> heap w' ! m = heap w ! m))"

definition fresh_spectrum :: "nat set \<Rightarrow> world \<Rightarrow> 'h spectrum \<Rightarrow> bool" where
  "fresh_spectrum S w s =
     (case metadata s of None \<Rightarrow> False | Some m \<Rightarrow> m < length (heap w) \<and> m \<notin> S)"

definition fresh_entry :: "nat set \<Rightarrow> world \<Rightarrow> 'h output_entry \<Rightarrow> bool" where
  "fresh_entry S w entry =
     (fresh_spectrum S w (spectrum entry)
      \<and> (case spectrum_continuum_normalised entry of
           None \<Rightarrow> True
         | Some sc \<Rightarrow> fresh_spectrum S w sc))"

section \<open>A small run\<close>

text \<open>
  One template at SNR 20 in the directory \<open>out\<close>, with two pixels in each arm of the
  low-resolution output, one on either side of a cutover, and a continuum output on
  the same raster. The heap holds the caller's metadata and the copy stored for
  template 0. The high-resolution mode has no SNR definition for any band, so that
  mode reads no output of 4FS.
\<close>

definition px :: "real \<Rightarrow> real \<Rightarrow> real \<Rightarrow> real \<Rightarrow> real \<Rightarrow> fits_row" where
  "px l re fl sk sn =
     \<lparr>LAMBDA = Float l, REALISATION = Float re, FLUENCE = Float fl, SKY = Float sk, SNR = Float sn\<rparr>"

definition example_blue :: "fits_row list" where
  "example_blue = [px 5000 13 4 1 10, px 5400 9 8 1 10]"

definition example_green :: "fits_row list" where
  "example_green = [px 5300 7 6 1 10, px 6000 3 2 1 10]"

definition example_red :: "fits_row list" where
  "example_red = [px 7000 5 4 1 10, px 8000 1 6 4 10]"

definition example_blue_c :: "fits_row list" where
  "example_blue_c = [px 5000 8 8 0 250, px 5400 8 8 0 250]"

definition example_green_c :: "fits_row list" where
  "example_green_c = [px 5300 4 4 0 250, px 6000 4 4 0 250]"

definition example_red_c :: "fits_row list" where
  "example_red_c = [px 7000 2 2 0 250, px 8000 2 2 0 250]"

definition example_summary :: "string list" where
  "example_summary =
     [''# run object ruleset mag texp_dark texp'',
      ''1 template_0_SNR10.0 goodSNR10.0 15.0 100.0 60.25'',
      ''2 template_0_SNR20.0 goodSNR20.0 15.0 100.0 nan'',
      ''3 template_0_SNR50.0 goodSNR50.0 15.0 100.0 120.5'']"

definition example_signal_files :: "(string \<times> file_content) list" where
  "example_signal_files =
     [(''out/4FS_ETC_summary.txt'', TextFile example_summary),
      (''out/specout_template_template_0_SNR20.0_MEDIANSNR_LRS_blue.fits'', OutputFits example_blue),
      (''out/specout_template_template_0_SNR20.0_MEDIANSNR_LRS_green.fits'', OutputFits example_green),
      (''out/specout_template_template_0_SNR20.0_MEDIANSNR_LRS_red.fits'', OutputFits example_red)]"

definition example_continuum_files :: "(string \<times> file_content) list" where
  "example_continuum_files =
     [(''out/specout_template_template_0_c_LRS_blue.fits'', OutputFits example_blue_c),
      (''out/specout_template_template_0_c_LRS_green.fits'', OutputFits example_green_c),
      (''out/specout_template_template_0_c_LRS_red.fits'', OutputFits example_red_c)]"

definition example_heap :: "pydict list" where
  "example_heap = [[''Starname'' \<mapsto> PyStr ''Sun''], [''Starname'' \<mapsto> PyStr ''Sun'']]"

definition example_world :: world where
  "example_world = \<lparr>heap = example_heap, files = map_of (example_signal_files @ example_continuum_files)\<rparr>"

definition example_world_no_continuum :: world where
  "example_world_no_continuum = \<lparr>heap = example_heap, files = map_of example_signal_files\<rparr>"

definition example_fourfs :: fourfs where
  "example_fourfs =
     \<lparr>run_lrs = True, run_hrs = True, magnitude = 14, magnitude_unreddened = False,
      photometric_band = ''SDSS_r'', snr_per_pixel = True, reference_magnitude = 15.0,
      template_counter = 1, metadata_store = [0 \<mapsto> 1], snr_list = [20],
      lrs_use_snr_definitions = [Some ''MEDIANSNR'', Some ''MEDIANSNR'', Some ''MEDIANSNR''],
      hrs_use_snr_definitions = [Some [], Some [], Some []],
      distinct_snr_definitions = [''MEDIANSNR''], tmp_dir = ''/tmp/4fs_1_x''\<rparr>"

definition example_definitions :: "string option list" where
  "example_definitions = rev (lrs_use_snr_definitions example_fourfs)"

text \<open>A spectrum of two pixels with the caller's metadata, and a photometry that puts
  every spectrum at magnitude 15.\<close>

definition example_spectrum :: "nat spectrum" where
  "example_spectrum = Spectrum length [Float 5000, Float 5001] [Float 2, Float 3] [Float 0, Float 0] (Some 0)"

definition example_photometry :: "nat spectrum \<Rightarrow> string \<Rightarrow> py_error + pyfloat" where
  "example_photometry s band = Inr (Float 15)"

text \<open>The same instance asked for three SNRs, for runs in the high-resolution mode.\<close>

definition example_fourfs_three :: fourfs where
  "example_fourfs_three = example_fourfs\<lparr>snr_list := [10, 20, 50]\<rparr>"








text \<open>
  Runs in the high-resolution mode, where the arms are not cut. In the first the
  continuum outputs are on the raster of the signal, two pixels in each arm, and the
  largest fluence is not always the first. In the second only the blue band has an SNR
  definition, the signal has two pixels and the continuum output one.
\<close>

definition example_blue_hc :: "fits_row list" where
  "example_blue_hc = [px 5000 8 4 0 250, px 5400 8 8 0 250]"

definition example_green_hc :: "fits_row list" where
  "example_green_hc = [px 5300 4 4 0 250, px 6000 4 2 0 250]"

definition example_red_hc :: "fits_row list" where
  "example_red_hc = [px 7000 2 1 0 250, px 8000 2 2 0 250]"

definition example_hrs_files :: "(string \<times> file_content) list" where
  "example_hrs_files =
     [(''out/4FS_ETC_summary.txt'', TextFile example_summary),
      (''out/specout_template_template_0_SNR20.0_MEDIANSNR_HRS_blue.fits'', OutputFits example_blue),
      (''out/specout_template_template_0_SNR20.0_MEDIANSNR_HRS_green.fits'', OutputFits example_green),
      (''out/specout_template_template_0_SNR20.0_MEDIANSNR_HRS_red.fits'', OutputFits example_red)]"

definition example_world_hrs :: world where
  "example_world_hrs =
     \<lparr>heap = example_heap,
      files = map_of (example_hrs_files @
        [(''out/specout_template_template_0_c_HRS_blue.fits'', OutputFits example_blue_hc),
         (''out/specout_template_template_0_c_HRS_green.fits'', OutputFits example_green_hc),
         (''out/specout_template_template_0_c_HRS_red.fits'', OutputFits example_red_hc)])\<rparr>"

definition example_fourfs_hrs :: fourfs where
  "example_fourfs_hrs =
     example_fourfs\<lparr>hrs_use_snr_definitions :=
        [Some ''MEDIANSNR'', Some ''MEDIANSNR'', Some ''MEDIANSNR'']\<rparr>"

definition example_world_one_pixel :: world where
  "example_world_one_pixel =
     \<lparr>heap = example_heap,
      files = map_of (example_hrs_files @
        [(''out/specout_template_template_0_c_HRS_blue.fits'', OutputFits [px 5000 8 8 0 250]),
         (''out/specout_template_template_0_c_HRS_green.fits'', OutputFits []),
         (''out/specout_template_template_0_c_HRS_red.fits'', OutputFits [])])\<rparr>"

definition example_fourfs_blue_only :: fourfs where
  "example_fourfs_blue_only =
     example_fourfs\<lparr>hrs_use_snr_definitions := [Some [], Some [], Some ''MEDIANSNR'']\<rparr>"

text \<open>
  The manifest builder on two spectra, the first with a continuum-normalised companion,
  in a world that holds the metadata of the two and no file yet.
\<close>

definition example_start :: world where
  "example_start =
     \<lparr>heap = [[''Starname'' \<mapsto> PyStr ''Sun''], [''Starname'' \<mapsto> PyStr ''Vega'']],
      files = Map.empty\<rparr>"

definition example_companion :: "nat spectrum" where
  "example_companion = Spectrum length [Float 5000, Float 5001] [Float 1, Float 2] [Float 0, Float 0] None"

definition example_spectrum_b :: "nat spectrum" where
  "example_spectrum_b = Spectrum length [Float 6000, Float 6001] [Float 4, Float 5] [Float 0, Float 0] (Some 1)"

definition example_spectra :: "(nat spectrum \<times> nat spectrum option) list" where
  "example_spectra = [(example_spectrum, Some example_companion), (example_spectrum_b, None)]"

text \<open>A new instance as \<open>__init__\<close> leaves it, asked for SNR 20 in both modes.\<close>

definition example_new :: fourfs where
  "example_new = example_fourfs_hrs\<lparr>template_counter := 0, metadata_store := Map.empty\<rparr>"

section \<open>Basic facts\<close>

lemma bindE_Inr [simp]: "bindE (Inr v) f = f v"
  by (simp add: bindE_def)

lemma bindE_Inl [simp]: "bindE (Inl e) f = Inl e"
  by (simp add: bindE_def)

lemma bindE_eq_Inr: "bindE r f = Inr y \<longleftrightarrow> (\<exists>v. r = Inr v \<and> f v = Inr y)"
  by (cases r) simp_all

lemma fmul_one [simp]: "fmul x (Float 1) = x"
  by (cases x) (simp_all add: inf_signed_def)

section \<open>Stitching the arms\<close>

lemma sequenceE_map_Inr [simp]: "sequenceE (map Inr vs) = Inr vs"
  by (induction vs) simp_all

lemma sequenceE_eq_Inr: "sequenceE rs = Inr vs \<longleftrightarrow> rs = map Inr vs"
proof
  show "sequenceE rs = Inr vs \<Longrightarrow> rs = map Inr vs"
    by (induction rs arbitrary: vs) (auto split: sum.splits)
qed simp

lemma upt_bands: "[0 ..< length bands] = [0, 1, 2]"
  by (simp add: bands_def upt_rec)

lemma load_arms_eq_Inr:
  "load_arms w path setup sd i snr = Inr d \<longleftrightarrow>
     (\<exists>b g r. d = [b, g, r] \<and> load_band w path setup sd i snr 0 = Inr b
              \<and> load_band w path setup sd i snr 1 = Inr g
              \<and> load_band w path setup sd i snr 2 = Inr r)"
  unfolding load_arms_def upt_bands sequenceE_eq_Inr by auto

lemma np_take_where:
  "np_take (map f rows) (np_where (map p rows)) = Inr (map f (filter p rows))"
proof -
  let ?ks = "filter (\<lambda>k. p (rows ! k)) [0 ..< length rows]"
  have ks: "np_where (map p rows) = ?ks"
    unfolding np_where_def by (rule filter_cong) auto
  have "map f (filter p rows) = map f (filter p (map (nth rows) [0 ..< length rows]))"
    by (simp add: map_nth)
  also have "\<dots> = map (\<lambda>k. f (rows ! k)) ?ks"
    by (simp add: filter_map o_def)
  also have "\<dots> = map (\<lambda>k. map f rows ! k) ?ks"
    by (rule map_cong) auto
  finally show ?thesis
    by (simp add: np_take_def ks list_all_iff)
qed

lemma np_binop_rows:
  "np_binop f (map g rows) (map h rows) = Inr (map (\<lambda>r. f (g r) (h r)) rows)"
  by (simp add: np_binop_def map2_map_map)

lemma lrs_indices3:
  "lrs_indices [map LAMBDA b, map LAMBDA g, map LAMBDA r] =
     [np_where (map blue_window b), np_where (map green_window g), np_where (map red_window r)]"
  by (simp add: lrs_indices_def o_def blue_window_def[abs_def] green_window_def[abs_def]
        red_window_def[abs_def])

lemma take_arms3:
  "take_arms (lrs_indices [map LAMBDA b, map LAMBDA g, map LAMBDA r]) [map f b, map f g, map f r]
     = Inr [map f (filter blue_window b), map f (filter green_window g), map f (filter red_window r)]"
  unfolding lrs_indices3 by (simp add: take_arms_def np_take_where)

lemma cut_arms3: "\<exists>b1 g1 r1. cut_arms setup [b, g, r] = [b1, g1, r1]"
  by (simp add: cut_arms_def)

lemma stitch_arms3:
  "stitch_arms setup [b, g, r] =
     Inr (map LAMBDA (concat (cut_arms setup [b, g, r])),
          map flux_of (concat (cut_arms setup [b, g, r])),
          map SNR (concat (cut_arms setup [b, g, r])),
          map (map FLUENCE) (cut_arms setup [b, g, r]))"
  by (simp add: stitch_arms_def np_binop_rows take_arms3 np_concatenate_def cut_arms_def
        flux_of_def[abs_def] del: map_map)

section \<open>The builtin maximum\<close>

lemma fgt_trans: "fgt a b \<Longrightarrow> fgt b c \<Longrightarrow> fgt a c"
  by (cases a; cases b; cases c) auto

lemma fgt_asym: "fgt a b \<Longrightarrow> \<not> fgt b a"
  by (cases a; cases b) auto

lemma fgt_below: "fgt r x \<Longrightarrow> \<not> fgt y x \<Longrightarrow> \<not> fgt y r"
  by (cases r; cases x; cases y) auto

lemma max_fold_grows:
  "foldl (\<lambda>m y. if fgt y m then y else m) x xs = x
   \<or> fgt (foldl (\<lambda>m y. if fgt y m then y else m) x xs) x"
proof (induction xs arbitrary: x)
  case Nil
  then show ?case by simp
next
  case (Cons y ys)
  show ?case
  proof (cases "fgt y x")
    case True
    with Cons [of y] show ?thesis by (auto intro: fgt_trans)
  next
    case False
    with Cons [of x] show ?thesis by simp
  qed
qed

lemma max_fold_peak:
  "foldl (\<lambda>m y. if fgt y m then y else m) x xs \<in> set (x # xs)
   \<and> (\<forall>z\<in>set (x # xs). \<not> fgt z (foldl (\<lambda>m y. if fgt y m then y else m) x xs))"
proof (induction xs arbitrary: x)
  case Nil
  then show ?case by (cases x) simp_all
next
  case (Cons y ys)
  let ?f = "\<lambda>m y. if fgt y m then y else m"
  show ?case
  proof (cases "fgt y x")
    case True
    then have step: "foldl ?f x (y # ys) = foldl ?f y ys" by simp
    note IH = Cons [of y]
    from max_fold_grows [of y ys] True have "\<not> fgt x (foldl ?f y ys)"
      by (auto dest: fgt_asym fgt_trans)
    with IH show ?thesis unfolding step by auto
  next
    case False
    then have step: "foldl ?f x (y # ys) = foldl ?f x ys" by simp
    note IH = Cons [of x]
    from max_fold_grows [of x ys] False have "\<not> fgt y (foldl ?f x ys)"
      by (auto dest: fgt_below)
    with IH show ?thesis unfolding step by auto
  qed
qed

lemma py_max_is_peak: "py_max a = Inr m \<Longrightarrow> is_peak a m"
  using max_fold_peak by (auto simp: py_max_def is_peak_def split: list.splits)

section \<open>The body of the combiner's loop\<close>

lemma make_outputs_Inr:
  assumes "make_outputs H w meta wl ff sf nf = Inr (entry, w')"
  shows "wavelengths (spectrum entry) = wl \<and> values_arr (spectrum entry) = ff
       \<and> np_binop fdiv ff sf = Inr (value_errors (spectrum entry))
       \<and> (case nf of None \<Rightarrow> spectrum_continuum_normalised entry = None
          | Some n \<Rightarrow> \<exists>sc. spectrum_continuum_normalised entry = Some sc
                      \<and> wavelengths sc = wl \<and> values_arr sc = n
                      \<and> np_binop fdiv n sf = Inr (value_errors sc))"
  using assms unfolding make_outputs_def dict_copy_def dict_new_def Spectrum_def
  by (cases nf; clarsimp simp: bindE_eq_Inr Let_def)

lemma combine_one_stages:
  assumes "combine_one H self path setup sd et w rc i snr = Inr r"
  shows "\<exists>d wl ff sf fl nf w1 meta. load_arms w path setup sd i snr = Inr d
    \<and> stitch_arms setup d = Inr (wl, ff, sf, fl)
    \<and> normalised_fluxes w path setup i ff fl = Inr nf
    \<and> attach_metadata self sd et w rc i snr = Inr (w1, meta)
    \<and> make_outputs H w1 meta wl ff sf nf = Inr r"
  using assms unfolding combine_one_def by (auto simp: bindE_eq_Inr)

lemma combine_one_Inr:
  assumes "combine_one H self path setup sd et w rc i snr = Inr (entry, w')"
  shows "\<exists>b g r. load_arms w path setup sd i snr = Inr [b, g, r]
     \<and> wavelengths (spectrum entry) = map LAMBDA (concat (cut_arms setup [b, g, r]))
     \<and> values_arr (spectrum entry) = map flux_of (concat (cut_arms setup [b, g, r]))
     \<and> value_errors (spectrum entry)
         = map (\<lambda>p. fdiv (flux_of p) (SNR p)) (concat (cut_arms setup [b, g, r]))
     \<and> (if continuum_filename path i setup (bands ! 0) \<in> dom (files w)
        then \<exists>raw sc. continuum_normalise w path setup i
                         (map flux_of (concat (cut_arms setup [b, g, r])))
                         (map (map FLUENCE) (cut_arms setup [b, g, r])) = Inr raw
                     \<and> spectrum_continuum_normalised entry = Some sc
                     \<and> values_arr sc = remove_bad_pixels raw
                     \<and> wavelengths sc = map LAMBDA (concat (cut_arms setup [b, g, r]))
        else spectrum_continuum_normalised entry = None)"
proof -
  from combine_one_stages [OF assms]
  obtain d wl ff sf fl nf w1 meta where d: "load_arms w path setup sd i snr = Inr d"
    and st: "stitch_arms setup d = Inr (wl, ff, sf, fl)"
    and nf: "normalised_fluxes w path setup i ff fl = Inr nf"
    and out: "make_outputs H w1 meta wl ff sf nf = Inr (entry, w')"
    by blast
  from d obtain b g r where bgr: "d = [b, g, r]"
    by (auto simp: load_arms_eq_Inr)
  let ?px = "concat (cut_arms setup [b, g, r])"
  from st have wl: "wl = map LAMBDA ?px" and ff: "ff = map flux_of ?px" and sf: "sf = map SNR ?px"
    and fl: "fl = map (map FLUENCE) (cut_arms setup [b, g, r])"
    unfolding bgr stitch_arms3 by simp_all
  have errs: "np_binop fdiv ff sf = Inr (map (\<lambda>p. fdiv (flux_of p) (SNR p)) ?px)"
    unfolding ff sf by (rule np_binop_rows)
  note mo = make_outputs_Inr [OF out]
  have 1: "load_arms w path setup sd i snr = Inr [b, g, r]" using d bgr by simp
  have 2: "wavelengths (spectrum entry) = map LAMBDA ?px" using mo wl by simp
  have 3: "values_arr (spectrum entry) = map flux_of ?px" using mo ff by simp
  have 4: "value_errors (spectrum entry) = map (\<lambda>p. fdiv (flux_of p) (SNR p)) ?px"
    using mo errs by simp
  have 5: "if continuum_filename path i setup (bands ! 0) \<in> dom (files w)
        then \<exists>raw sc. continuum_normalise w path setup i (map flux_of ?px)
                         (map (map FLUENCE) (cut_arms setup [b, g, r])) = Inr raw
                     \<and> spectrum_continuum_normalised entry = Some sc
                     \<and> values_arr sc = remove_bad_pixels raw
                     \<and> wavelengths sc = map LAMBDA ?px
        else spectrum_continuum_normalised entry = None"
  proof (cases "continuum_filename path i setup (bands ! 0) \<in> dom (files w)")
    case True
    with nf obtain raw where raw: "continuum_normalise w path setup i ff fl = Inr raw"
      and nfs: "nf = Some (remove_bad_pixels raw)"
      unfolding normalised_fluxes_def by (auto simp: bindE_eq_Inr)
    from mo nfs obtain sc where "spectrum_continuum_normalised entry = Some sc"
      "wavelengths sc = wl" "values_arr sc = remove_bad_pixels raw" by auto
    with raw True show ?thesis unfolding ff fl wl by auto
  next
    case False
    with nf have "nf = None" unfolding normalised_fluxes_def by simp
    with mo False show ?thesis by simp
  qed
  from 1 2 3 4 5 show ?thesis by blast
qed

lemma window_order:
  "fle x (Float c) \<Longrightarrow> fgt y (Float d) \<Longrightarrow> c \<le> d \<Longrightarrow> fle x y \<and> fgt y x"
  by (cases x; cases y) auto

lemma stitched_sorted:
  assumes "sorted_wrt R (map LAMBDA (filter blue_window b))"
    and "sorted_wrt R (map LAMBDA (filter green_window g))"
    and "sorted_wrt R (map LAMBDA (filter red_window r))"
    and R: "\<And>x y c d. fle x (Float c) \<Longrightarrow> fgt y (Float d) \<Longrightarrow> c \<le> d \<Longrightarrow> R x y"
  shows "sorted_wrt R (map LAMBDA (filter blue_window b @ filter green_window g
                                   @ filter red_window r))"
proof -
  have bg: "R (LAMBDA p) (LAMBDA q)" if "blue_window p" "green_window q" for p q
    using that R [of "LAMBDA p" "5327.7" "LAMBDA q" "5327.7"]
    by (simp add: blue_window_def green_window_def)
  have br: "R (LAMBDA p) (LAMBDA q)" if "blue_window p" "red_window q" for p q
    using that R [of "LAMBDA p" "5327.7" "LAMBDA q" "7031.7"]
    by (simp add: blue_window_def red_window_def)
  have gr: "R (LAMBDA p) (LAMBDA q)" if "green_window p" "red_window q" for p q
    using that R [of "LAMBDA p" "7031.7" "LAMBDA q" "7031.7"]
    by (simp add: green_window_def red_window_def)
  show ?thesis
    using assms(1-3) bg br gr by (auto simp: sorted_wrt_append)
qed

lemma foldl_list_update_const:
  "length (foldl (\<lambda>b k. b[k := z]) a ks) = length a \<and>
   (\<forall>k < length a. foldl (\<lambda>b k. b[k := z]) a ks ! k = (if k \<in> set ks then z else a ! k))"
  by (induction ks arbitrary: a) (auto simp: nth_list_update)

lemma set_np_where: "set (np_where c) = {k. k < length c \<and> c ! k}"
  by (auto simp: np_where_def)

lemma remove_bad_pixels_spec:
  "length (remove_bad_pixels a) = length a \<and>
   (\<forall>k < length a. remove_bad_pixels a ! k =
      (if fgt (a ! k) (Float 2) \<or> fle (a ! k) (Float 0) then Float 0 else a ! k))"
  unfolding remove_bad_pixels_def using foldl_list_update_const [of "Float 0" a]
  by (simp add: set_np_where)

lemma load_continuum_eq_Inr:
  "load_continuum w path setup i = Inr d \<Longrightarrow> \<exists>cb cg cr. d = [cb, cg, cr]"
  unfolding load_continuum_def bands_def sequenceE_eq_Inr by auto

lemma rescale_continuum_Inr:
  assumes "rescale_continuum s c = Inr part"
  shows "rescaled_arm (s, c) part"
proof -
  from assms obtain ps pc where ps: "py_max s = Inr ps" and pc: "py_max c = Inr pc"
    and part: "part = map (\<lambda>x. fdiv (fmul x ps) pc) c"
    by (auto simp: rescale_continuum_def bindE_eq_Inr)
  from py_max_is_peak [OF ps] py_max_is_peak [OF pc] part show ?thesis
    unfolding rescaled_arm_def is_peak_def by auto
qed

lemma sequenceE_map_all2:
  assumes "sequenceE (map f xs) = Inr ys" and "\<And>x y. f x = Inr y \<Longrightarrow> P x y"
  shows "list_all2 P xs ys"
proof -
  from assms(1) have eq: "map f xs = map Inr ys" by (simp add: sequenceE_eq_Inr)
  then have len: "length xs = length ys" by (metis length_map)
  have "P (xs ! k) (ys ! k)" if "k < length xs" for k
  proof -
    from eq that have "f (xs ! k) = Inr (ys ! k)" by (metis len nth_map)
    with assms(2) show ?thesis .
  qed
  with len show ?thesis by (simp add: list_all2_conv_all_nth)
qed

lemma stitch_continuum_Inr:
  assumes "stitch_continuum setup fl [cb, cg, cr] = Inr cont"
  shows "\<exists>parts. cont = concat parts
     \<and> list_all2 rescaled_arm
          (filter (\<lambda>(s, c). s \<noteq> []) (zip fl (map (map FLUENCE) (cut_arms setup [cb, cg, cr])))) parts"
proof -
  let ?flc = "map (map FLUENCE) (cut_arms setup [cb, cg, cr])"
  let ?pairs = "filter (\<lambda>(s, c). 0 < length s) (zip fl ?flc)"
  have cut: "(if setup = ''LRS''
              then take_arms (lrs_indices (map (map LAMBDA) [cb, cg, cr])) (map (map FLUENCE) [cb, cg, cr])
              else Inr (map (map FLUENCE) [cb, cg, cr])) = Inr ?flc"
    by (simp add: take_arms3 cut_arms_def)
  from assms obtain parts where
    parts: "sequenceE (map (\<lambda>(s, c). rescale_continuum s c) ?pairs) = Inr parts"
    and cont: "np_concatenate parts = Inr cont"
    unfolding stitch_continuum_def Let_def cut by (auto simp: bindE_eq_Inr)
  have "list_all2 rescaled_arm ?pairs parts"
    by (rule sequenceE_map_all2 [OF parts]) (auto dest: rescale_continuum_Inr)
  moreover from cont have "cont = concat parts"
    by (auto simp: np_concatenate_def split: if_splits)
  ultimately show ?thesis by auto
qed

lemma np_binop_divided: "np_binop fdiv a b = Inr r \<Longrightarrow> numpy_divided a b r"
  by (cases a; cases b) (auto simp: np_binop_def numpy_divided_def split: if_splits)

lemma continuum_normalise_Inr:
  assumes "continuum_normalise w path setup i ff fl = Inr raw"
  shows "\<exists>cb cg cr parts. load_continuum w path setup i = Inr [cb, cg, cr]
     \<and> list_all2 rescaled_arm
          (filter (\<lambda>(s, c). s \<noteq> []) (zip fl (map (map FLUENCE) (cut_arms setup [cb, cg, cr])))) parts
     \<and> numpy_divided ff (concat parts) raw"
proof -
  from assms obtain d_c cont where d: "load_continuum w path setup i = Inr d_c"
    and c: "stitch_continuum setup fl d_c = Inr cont"
    and r: "np_binop fdiv ff cont = Inr raw"
    unfolding continuum_normalise_def by (auto simp: bindE_eq_Inr)
  from load_continuum_eq_Inr [OF d] obtain cb cg cr where dc: "d_c = [cb, cg, cr]" by blast
  from stitch_continuum_Inr [OF c [unfolded dc]] obtain parts where
    "cont = concat parts"
    "list_all2 rescaled_arm
       (filter (\<lambda>(s, c). s \<noteq> []) (zip fl (map (map FLUENCE) (cut_arms setup [cb, cg, cr])))) parts"
    by blast
  with d dc np_binop_divided [OF r] show ?thesis by auto
qed

lemma load_band_present:
  assumes "j < length sd"
    and "\<forall>s. sd ! j = Some s \<and> s \<noteq> [] \<longrightarrow>
           (\<exists>rows. files w (signal_filename path i snr s setup (bands ! j)) = Some (OutputFits rows))"
  shows "\<exists>rows. load_band w path setup sd i snr j = Inr rows"
  using assms by (auto simp: load_band_def fits_open_table_def split: option.splits)

lemma snr_definition_label_ok:
  assumes "length sd = 3" and "(sd ! 0 = sd ! 1 \<and> sd ! 1 = sd ! 2) \<or> list_all (\<lambda>x. x \<noteq> None) sd"
  shows "\<exists>label. snr_definition_label sd = Inr label"
  using assms by (auto simp: snr_definition_label_def py_join_def)

section \<open>Files and the pairs of a call\<close>

lemma fits_open_table_files:
  "files w1 = files w \<Longrightarrow> fits_open_table w1 name = fits_open_table w name"
  by (simp add: fits_open_table_def)

lemma load_band_files:
  "files w1 = files w \<Longrightarrow> load_band w1 path setup sd i snr j = load_band w path setup sd i snr j"
  by (auto simp: load_band_def fits_open_table_files [of w1 w] split: option.splits)

lemma load_arms_files:
  "files w1 = files w \<Longrightarrow> load_arms w1 path setup sd i snr = load_arms w path setup sd i snr"
  by (simp add: load_arms_def upt_bands load_band_files [of w1 w])

lemma load_continuum_files:
  "files w1 = files w \<Longrightarrow> load_continuum w1 path setup i = load_continuum w path setup i"
  by (simp add: load_continuum_def fits_open_table_files [of w1 w])

lemma continuum_normalise_files:
  "files w1 = files w \<Longrightarrow>
     continuum_normalise w1 path setup i ff fl = continuum_normalise w path setup i ff fl"
  by (simp add: continuum_normalise_def load_continuum_files [of w1 w])

lemma combine_one_files:
  assumes "combine_one H self path setup sd et w rc i snr = Inr (entry, w')"
  shows "files w' = files w"
proof -
  from combine_one_stages [OF assms] obtain wl ff sf nf w1 meta where
    am: "attach_metadata self sd et w rc i snr = Inr (w1, meta)"
    and mo: "make_outputs H w1 meta wl ff sf nf = Inr (entry, w')" by blast
  from am have "files w1 = files w"
    unfolding attach_metadata_def Let_def
    by (auto simp: bindE_eq_Inr dict_set_def split: option.splits)
  moreover from mo have "files w' = files w1"
    unfolding make_outputs_def dict_copy_def dict_new_def
    by (cases nf; clarsimp simp: bindE_eq_Inr Let_def dict_set_def)
  ultimately show ?thesis by simp
qed

lemma snr_loop_pairs:
  assumes "snr_loop H self path setup sd et i snrs (rc, out_i, w) = Inr (rc', out_i', w')"
  shows "files w' = files w \<and> rc' = rc + int (length snrs)
     \<and> (\<forall>b < length snrs. snrs ! b \<notin> set (drop (Suc b) snrs) \<longrightarrow>
          (\<exists>wb wb' entry. files wb = files w
             \<and> combine_one H self path setup sd et wb (rc + 1 + int b) i (snrs ! b) = Inr (entry, wb')
             \<and> out_i' (snrs ! b) = Some entry))
     \<and> (\<forall>k. k \<notin> set snrs \<longrightarrow> out_i' k = out_i k)"
  using assms
proof (induction snrs arbitrary: rc out_i w)
  case Nil
  then show ?case by simp
next
  case (Cons s rest)
  from Cons.prems obtain entry w1 where
    one: "combine_one H self path setup sd et w (rc + 1) i s = Inr (entry, w1)"
    and loop: "snr_loop H self path setup sd et i rest (rc + 1, out_i(s \<mapsto> entry), w1) = Inr (rc', out_i', w')"
    by (auto simp: bindE_eq_Inr)
  note f1 = combine_one_files [OF one]
  note IH = Cons.IH [OF loop]
  have 1: "files w' = files w" using IH f1 by simp
  have 2: "rc' = rc + int (length (s # rest))" using IH by simp
  have 4: "\<forall>k. k \<notin> set (s # rest) \<longrightarrow> out_i' k = out_i k" using IH by simp
  have 3: "\<exists>wb wb' e. files wb = files w
             \<and> combine_one H self path setup sd et wb (rc + 1 + int b) i ((s # rest) ! b) = Inr (e, wb')
             \<and> out_i' ((s # rest) ! b) = Some e"
    if "b < length (s # rest)" "(s # rest) ! b \<notin> set (drop (Suc b) (s # rest))" for b
  proof (cases b)
    case 0
    with that have "s \<notin> set rest" by simp
    with IH have "out_i' s = Some entry" by simp
    with one 0 show ?thesis by auto
  next
    case (Suc b')
    from Suc that have "b' < length rest" "rest ! b' \<notin> set (drop (Suc b') rest)" by simp_all
    with IH obtain wb wb' e where e: "files wb = files w1"
      "combine_one H self path setup sd et wb (rc + 1 + 1 + int b') i (rest ! b') = Inr (e, wb')"
      "out_i' (rest ! b') = Some e" by blast
    have "rc + 1 + 1 + int b' = rc + 1 + int b" using Suc by simp
    with e have "combine_one H self path setup sd et wb (rc + 1 + int b) i (rest ! b') = Inr (e, wb')"
      by (simp only:)
    moreover have "(s # rest) ! b = rest ! b'" using Suc by simp
    ultimately show ?thesis using e f1 by (simp only:) auto
  qed
  from 1 2 3 4 show ?case by blast
qed

lemma template_loop_pairs:
  assumes "template_loop H self path setup sd et ids (rc, out, w) = Inr (rc', out', w')"
  shows "files w' = files w
     \<and> (\<forall>a < length ids. ids ! a \<notin> set (drop (Suc a) ids) \<longrightarrow>
          (\<exists>out_i. out' (ids ! a) = Some out_i
             \<and> (\<forall>b < length (snr_list self).
                   snr_list self ! b \<notin> set (drop (Suc b) (snr_list self)) \<longrightarrow>
                   (\<exists>wb wb' entry. files wb = files w
                      \<and> combine_one H self path setup sd et wb
                           (rc + int a * int (length (snr_list self)) + int b + 1)
                           (ids ! a) (snr_list self ! b) = Inr (entry, wb')
                      \<and> out_i (snr_list self ! b) = Some entry))))
     \<and> (\<forall>k. k \<notin> set ids \<longrightarrow> out' k = out k)"
  using assms
proof (induction ids arbitrary: rc out w)
  case Nil
  then show ?case by simp
next
  case (Cons i rest)
  let ?n = "int (length (snr_list self))"
  from Cons.prems obtain rc1 out_i w1 where
    inner: "snr_loop H self path setup sd et i (snr_list self) (rc, Map.empty, w) = Inr (rc1, out_i, w1)"
    and outer: "template_loop H self path setup sd et rest (rc1, out(i \<mapsto> out_i), w1) = Inr (rc', out', w')"
    by (auto simp: bindE_eq_Inr)
  note s = snr_loop_pairs [OF inner]
  from s have rc1: "rc1 = rc + ?n" and f1: "files w1 = files w" by simp_all
  note IH = Cons.IH [OF outer]
  have 1: "files w' = files w" using IH f1 by simp
  have 3: "\<forall>k. k \<notin> set (i # rest) \<longrightarrow> out' k = out k" using IH by simp
  have 2: "\<exists>o_i. out' ((i # rest) ! a) = Some o_i
             \<and> (\<forall>b < length (snr_list self).
                   snr_list self ! b \<notin> set (drop (Suc b) (snr_list self)) \<longrightarrow>
                   (\<exists>wb wb' entry. files wb = files w
                      \<and> combine_one H self path setup sd et wb (rc + int a * ?n + int b + 1)
                           ((i # rest) ! a) (snr_list self ! b) = Inr (entry, wb')
                      \<and> o_i (snr_list self ! b) = Some entry))"
    if "a < length (i # rest)" "(i # rest) ! a \<notin> set (drop (Suc a) (i # rest))" for a
  proof (cases a)
    case 0
    with that have "i \<notin> set rest" by simp
    with IH have o: "out' i = Some out_i" by simp
    have "\<exists>wb wb' entry. files wb = files w
            \<and> combine_one H self path setup sd et wb (rc + int a * ?n + int b + 1)
                 i (snr_list self ! b) = Inr (entry, wb')
            \<and> out_i (snr_list self ! b) = Some entry"
      if "b < length (snr_list self)" "snr_list self ! b \<notin> set (drop (Suc b) (snr_list self))" for b
    proof -
      from s that obtain wb wb' entry where e: "files wb = files w"
        "combine_one H self path setup sd et wb (rc + 1 + int b) i (snr_list self ! b) = Inr (entry, wb')"
        "out_i (snr_list self ! b) = Some entry" by blast
      have "rc + 1 + int b = rc + int a * ?n + int b + 1" using 0 by simp
      with e show ?thesis by (simp only:) blast
    qed
    with o 0 show ?thesis by simp
  next
    case (Suc a')
    from Suc that have "a' < length rest" "rest ! a' \<notin> set (drop (Suc a') rest)" by simp_all
    with IH obtain o_i where o: "out' (rest ! a') = Some o_i"
      and es: "\<forall>b < length (snr_list self).
                   snr_list self ! b \<notin> set (drop (Suc b) (snr_list self)) \<longrightarrow>
                   (\<exists>wb wb' entry. files wb = files w1
                      \<and> combine_one H self path setup sd et wb (rc1 + int a' * ?n + int b + 1)
                           (rest ! a') (snr_list self ! b) = Inr (entry, wb')
                      \<and> o_i (snr_list self ! b) = Some entry)"
      by blast
    have "rc1 + int a' * ?n + int b + 1 = rc + int a * ?n + int b + 1" for b
      using Suc rc1 by (simp add: algebra_simps)
    with es f1 have "\<forall>b < length (snr_list self).
                   snr_list self ! b \<notin> set (drop (Suc b) (snr_list self)) \<longrightarrow>
                   (\<exists>wb wb' entry. files wb = files w
                      \<and> combine_one H self path setup sd et wb (rc + int a * ?n + int b + 1)
                           (rest ! a') (snr_list self ! b) = Inr (entry, wb')
                      \<and> o_i (snr_list self ! b) = Some entry)"
      by (simp only:)
    moreover have "(i # rest) ! a = rest ! a'" using Suc by simp
    ultimately show ?thesis using o by (simp only:) blast
  qed
  from 1 2 3 show ?case by blast
qed

section \<open>When the combiner returns\<close>

lemma rescale_continuum_returns:
  "s \<noteq> [] \<Longrightarrow> c \<noteq> [] \<Longrightarrow> \<exists>part. rescale_continuum s c = Inr part \<and> length part = length c"
  by (cases s; cases c) (simp_all add: rescale_continuum_def py_max_def)

lemma rescale_all_returns:
  assumes "list_all2 (\<lambda>s c. length s = length c) fl flc"
  shows "\<exists>parts. sequenceE (map (\<lambda>(s, c). rescale_continuum s c)
                      (filter (\<lambda>(s, c). 0 < length s) (zip fl flc))) = Inr parts
           \<and> length (concat parts) = length (concat fl)
           \<and> (parts = [] \<longrightarrow> concat fl = [])"
  using assms
proof (induction rule: list_all2_induct)
  case Nil
  then show ?case by simp
next
  case (Cons s ss c cs)
  then obtain parts where p: "sequenceE (map (\<lambda>(s, c). rescale_continuum s c)
                      (filter (\<lambda>(s, c). 0 < length s) (zip ss cs))) = Inr parts"
    "length (concat parts) = length (concat ss)" "parts = [] \<longrightarrow> concat ss = []" by blast
  show ?case
  proof (cases "s = []")
    case True
    with p show ?thesis by simp
  next
    case False
    with Cons.hyps have "c \<noteq> []" by auto
    from rescale_continuum_returns [OF False this] obtain part where
      "rescale_continuum s c = Inr part" "length part = length c" by blast
    with p False Cons.hyps show ?thesis by simp
  qed
qed

lemma stitch_continuum_returns:
  assumes "list_all2 (\<lambda>s c. length s = length c) (cut_arms setup [b, g, r]) (cut_arms setup [cb, cg, cr])"
    and "concat (cut_arms setup [b, g, r]) \<noteq> []"
  shows "\<exists>cont. stitch_continuum setup (map (map FLUENCE) (cut_arms setup [b, g, r])) [cb, cg, cr] = Inr cont
           \<and> length cont = length (concat (cut_arms setup [b, g, r]))"
proof -
  let ?fl = "map (map FLUENCE) (cut_arms setup [b, g, r])"
  let ?flc = "map (map FLUENCE) (cut_arms setup [cb, cg, cr])"
  have cut: "(if setup = ''LRS''
              then take_arms (lrs_indices (map (map LAMBDA) [cb, cg, cr])) (map (map FLUENCE) [cb, cg, cr])
              else Inr (map (map FLUENCE) [cb, cg, cr])) = Inr ?flc"
    by (simp add: take_arms3 cut_arms_def)
  from assms(1) have "list_all2 (\<lambda>s c. length s = length c) ?fl ?flc"
    by (simp add: list_all2_map1 list_all2_map2)
  from rescale_all_returns [OF this] obtain parts where
    p: "sequenceE (map (\<lambda>(s, c). rescale_continuum s c)
                      (filter (\<lambda>(s, c). 0 < length s) (zip ?fl ?flc))) = Inr parts"
    and len: "length (concat parts) = length (concat ?fl)" and ne: "parts = [] \<longrightarrow> concat ?fl = []"
    by blast
  have l: "length (concat ?fl) = length (concat (cut_arms setup [b, g, r]))"
    by (simp add: length_concat o_def)
  with assms(2) have "concat ?fl \<noteq> []" by (metis length_0_conv)
  with ne have "parts \<noteq> []" by blast
  then show ?thesis
    unfolding stitch_continuum_def Let_def cut
    using p len l by (simp add: np_concatenate_def)
qed

lemma length_remove_bad_pixels [simp]: "length (remove_bad_pixels a) = length a"
  using remove_bad_pixels_spec [of a] by simp

lemma np_binop_returns: "length a = length b \<Longrightarrow> \<exists>r. np_binop f a b = Inr r \<and> length r = length a"
  by (simp add: np_binop_def)

lemma normalised_fluxes_returns:
  assumes "continuum_absent w path setup i \<or> continuum_aligned w path setup sd i snr"
    and arms: "load_arms w path setup sd i snr = Inr [b, g, r]"
  shows "\<exists>nf. normalised_fluxes w path setup i (map flux_of (concat (cut_arms setup [b, g, r])))
                  (map (map FLUENCE) (cut_arms setup [b, g, r])) = Inr nf
           \<and> (case nf of None \<Rightarrow> True
               | Some n \<Rightarrow> length n = length (concat (cut_arms setup [b, g, r])))"
proof (cases "continuum_absent w path setup i")
  case True
  then show ?thesis
    by (simp add: normalised_fluxes_def continuum_absent_def bands_def dom_def)
next
  case False
  with assms(1) have al: "continuum_aligned w path setup sd i snr" by simp
  then obtain d_c where dc: "load_continuum w path setup i = Inr d_c"
    and l2: "list_all2 (\<lambda>s c. length s = length c) (cut_arms setup [b, g, r]) (cut_arms setup d_c)"
    and ne: "concat (cut_arms setup [b, g, r]) \<noteq> []"
    unfolding continuum_aligned_def arms by (auto split: sum.splits)
  from load_continuum_eq_Inr [OF dc] obtain cb cg cr where d_c: "d_c = [cb, cg, cr]" by blast
  from stitch_continuum_returns [OF l2 [unfolded d_c] ne] obtain cont where
    c: "stitch_continuum setup (map (map FLUENCE) (cut_arms setup [b, g, r])) [cb, cg, cr] = Inr cont"
    and len: "length cont = length (concat (cut_arms setup [b, g, r]))" by blast
  have "\<exists>raw. np_binop fdiv (map flux_of (concat (cut_arms setup [b, g, r]))) cont = Inr raw
          \<and> length raw = length (concat (cut_arms setup [b, g, r]))"
    using np_binop_returns [of "map flux_of (concat (cut_arms setup [b, g, r]))" cont fdiv] len by simp
  then obtain raw where
    "np_binop fdiv (map flux_of (concat (cut_arms setup [b, g, r]))) cont = Inr raw"
    "length raw = length (concat (cut_arms setup [b, g, r]))" by blast
  then show ?thesis
    by (simp add: normalised_fluxes_def continuum_normalise_def dc d_c c)
qed

lemma signal_outputs_load_arms:
  assumes "signal_outputs_present w path setup sd i snr" and "length sd = 3"
  shows "\<exists>b g r. load_arms w path setup sd i snr = Inr [b, g, r]"
proof -
  have "\<exists>rows. load_band w path setup sd i snr j = Inr rows" if "j < 3" for j
  proof (rule load_band_present)
    show "j < length sd" using that assms(2) by simp
    from that have "j = 0 \<or> j = 1 \<or> j = 2" by auto
    with assms(1) show "\<forall>s. sd ! j = Some s \<and> s \<noteq> [] \<longrightarrow>
           (\<exists>rows. files w (signal_filename path i snr s setup (bands ! j)) = Some (OutputFits rows))"
      by (auto simp: signal_outputs_present_def split: option.splits file_content.splits)
  qed
  from this [of 0] this [of 1] this [of 2] show ?thesis
    by (auto simp: load_arms_eq_Inr)
qed

lemma pair_returns:
  assumes ready: "pair_ready w path setup sd i snr"
    and lab: "labelled sd"
    and stored: "metadata_store self i \<noteq> None"
  shows "\<exists>entry w'. combine_one H self path setup sd et w rc i snr = Inr (entry, w')"
proof -
  from lab have three: "length sd = 3" by (simp add: labelled_def)
  from ready have sig: "signal_outputs_present w path setup sd i snr"
    and cont: "continuum_absent w path setup i \<or> continuum_aligned w path setup sd i snr"
    by (simp_all add: pair_ready_def)
  from signal_outputs_load_arms [OF sig three] obtain b g r where
    arms: "load_arms w path setup sd i snr = Inr [b, g, r]" by blast
  let ?px = "concat (cut_arms setup [b, g, r])"
  from normalised_fluxes_returns [OF cont arms] obtain nf where
    nf: "normalised_fluxes w path setup i (map flux_of ?px) (map (map FLUENCE) (cut_arms setup [b, g, r]))
           = Inr nf"
    and len: "case nf of None \<Rightarrow> True | Some n \<Rightarrow> length n = length ?px" by blast
  from lab have "\<exists>label. snr_definition_label sd = Inr label"
    by (intro snr_definition_label_ok) (simp_all add: labelled_def)
  with stored obtain w1 meta where am: "attach_metadata self sd et w rc i snr = Inr (w1, meta)"
    by (auto simp: attach_metadata_def Let_def)
  have "\<exists>entry w'. make_outputs H w1 meta (map LAMBDA ?px) (map flux_of ?px) (map SNR ?px) nf
                      = Inr (entry, w')"
  proof (cases nf)
    case None
    then show ?thesis
      by (simp add: make_outputs_def np_binop_rows dict_copy_def dict_new_def)
  next
    case (Some n)
    with len have "length n = length (map SNR ?px)" by simp
    from np_binop_returns [OF this, of fdiv] obtain e where "np_binop fdiv n (map SNR ?px) = Inr e"
      by blast
    with Some show ?thesis
      by (simp add: make_outputs_def np_binop_rows dict_copy_def dict_new_def Let_def)
  qed
  then show ?thesis
    unfolding combine_one_def arms bindE_Inr stitch_arms3 prod.case nf am by blast
qed

lemma pair_ready_files:
  assumes "files w1 = files w"
  shows "pair_ready w1 path setup sd i snr = pair_ready w path setup sd i snr"
  unfolding pair_ready_def signal_outputs_present_def continuum_absent_def continuum_aligned_def
    load_arms_files [OF assms] load_continuum_files [OF assms] assms
  by (rule refl)

lemma snr_loop_returns:
  assumes "\<And>snr w1 rc1. snr \<in> set snrs \<Longrightarrow> files w1 = files w \<Longrightarrow>
             \<exists>r. combine_one H self path setup sd et w1 rc1 i snr = Inr r"
  shows "\<exists>rc' out_i' w'. snr_loop H self path setup sd et i snrs (rc, out_i, w) = Inr (rc', out_i', w')
           \<and> files w' = files w"
  using assms
proof (induction snrs arbitrary: rc out_i w)
  case Nil
  then show ?case by simp
next
  case (Cons s rest)
  from Cons.prems [of s w "rc + 1"] obtain entry w1 where
    one: "combine_one H self path setup sd et w (rc + 1) i s = Inr (entry, w1)" by auto
  note f1 = combine_one_files [OF one]
  have "\<exists>rc' out_i' w'. snr_loop H self path setup sd et i rest (rc + 1, out_i(s \<mapsto> entry), w1)
           = Inr (rc', out_i', w') \<and> files w' = files w1"
    by (rule Cons.IH) (use Cons.prems f1 in auto)
  with one f1 show ?case by auto
qed

lemma template_loop_returns:
  assumes "\<And>i snr w1 rc1. i \<in> set ids \<Longrightarrow> snr \<in> set (snr_list self) \<Longrightarrow> files w1 = files w \<Longrightarrow>
             \<exists>r. combine_one H self path setup sd et w1 rc1 i snr = Inr r"
  shows "\<exists>rc' out' w'. template_loop H self path setup sd et ids (rc, out, w) = Inr (rc', out', w')"
  using assms
proof (induction ids arbitrary: rc out w)
  case Nil
  then show ?case by simp
next
  case (Cons i rest)
  have "\<exists>rc1 out_i w1. snr_loop H self path setup sd et i (snr_list self) (rc, Map.empty, w)
           = Inr (rc1, out_i, w1) \<and> files w1 = files w"
    by (rule snr_loop_returns) (use Cons.prems in auto)
  then obtain rc1 out_i w1 where
    inner: "snr_loop H self path setup sd et i (snr_list self) (rc, Map.empty, w) = Inr (rc1, out_i, w1)"
    and f1: "files w1 = files w" by blast
  have "\<exists>rc' out' w'. template_loop H self path setup sd et rest (rc1, out(i \<mapsto> out_i), w1)
           = Inr (rc', out', w')"
    by (rule Cons.IH) (use Cons.prems f1 in auto)
  with inner show ?case by auto
qed

lemma summary_line_returns:
  "line_run line = None \<or> line_exposure line \<noteq> None \<Longrightarrow> \<exists>e'. summary_line line e = Inr e'"
  by (auto simp: summary_line_def line_run_def line_exposure_def Let_def split: option.splits if_splits)

lemma parse_summary_returns:
  "summary_parses summary \<Longrightarrow> \<exists>et. parse_summary summary e = Inr et"
proof (induction summary arbitrary: e)
  case Nil
  then show ?case by simp
next
  case (Cons l ls)
  then have "line_run l = None \<or> line_exposure l \<noteq> None" "summary_parses ls"
    by (simp_all add: summary_parses_def)
  with summary_line_returns [of l e] Cons.IH show ?case by auto
qed

lemma combine_spectra_returns:
  assumes rd: "read_lines w (os_path_join path ''4FS_ETC_summary.txt'') = Inr summary"
    and ps: "summary_parses summary"
    and lab: "labelled (mode_definitions self setup)"
    and stored: "\<forall>i\<in>set ids. metadata_store self i \<noteq> None"
    and ready: "\<forall>i\<in>set ids. \<forall>snr\<in>set (snr_list self).
                  pair_ready w path setup (mode_definitions self setup) i snr"
  shows "\<exists>output w'. combine_spectra H self w ids path setup = Inr (output, w')"
proof -
  from parse_summary_returns [OF ps] obtain et where et: "parse_summary summary Map.empty = Inr et"
    by blast
  have "\<exists>rc' out' w'. template_loop H self path setup (mode_definitions self setup) et ids
           (0, Map.empty, w) = Inr (rc', out', w')"
  proof (rule template_loop_returns)
    fix i snr rc1 and w1 :: world
    assume "i \<in> set ids" "snr \<in> set (snr_list self)" "files w1 = files w"
    with ready stored have "pair_ready w1 path setup (mode_definitions self setup) i snr"
      "metadata_store self i \<noteq> None"
      by (simp_all add: pair_ready_files [of w1 w])
    from pair_returns [OF this(1) lab this(2)]
    show "\<exists>r. combine_one H self path setup (mode_definitions self setup) et w1 rc1 i snr = Inr r"
      by auto
  qed
  then show ?thesis
    unfolding combine_spectra_def Let_def mode_definitions_def [symmetric]
    by (auto simp: rd et)
qed

lemma last_occurrence: "x \<in> set xs \<Longrightarrow> \<exists>a<length xs. xs ! a = x \<and> x \<notin> set (drop (Suc a) xs)"
proof -
  assume "x \<in> set xs"
  then obtain ys zs where xs: "xs = ys @ x # zs" and nz: "x \<notin> set zs"
    by (auto dest: split_list_last)
  have "length ys < length xs" "xs ! length ys = x" "drop (Suc (length ys)) xs = zs"
    unfolding xs by simp_all
  with nz show ?thesis by metis
qed

lemma combine_spectra_pairs:
  assumes run: "combine_spectra H self w ids path setup = Inr (output, w')"
    and i: "i \<in> set ids" and snr: "snr \<in> set (snr_list self)"
  shows "\<exists>summary et entry wb wb' rc.
       read_lines w (os_path_join path ''4FS_ETC_summary.txt'') = Inr summary
     \<and> parse_summary summary Map.empty = Inr et
     \<and> output_at output i snr = Some entry \<and> files wb = files w
     \<and> combine_one H self path setup (mode_definitions self setup) et wb rc i snr = Inr (entry, wb')"
proof -
  from run obtain summary et rc' where
    rd: "read_lines w (os_path_join path ''4FS_ETC_summary.txt'') = Inr summary"
    and ps: "parse_summary summary Map.empty = Inr et"
    and lp: "template_loop H self path setup (mode_definitions self setup) et ids (0, Map.empty, w)
               = Inr (rc', output, w')"
    unfolding combine_spectra_def Let_def mode_definitions_def by (auto simp: bindE_eq_Inr)
  from last_occurrence [OF i] obtain a where a: "a < length ids" "ids ! a = i"
    "i \<notin> set (drop (Suc a) ids)" by blast
  from last_occurrence [OF snr] obtain b where b: "b < length (snr_list self)" "snr_list self ! b = snr"
    "snr \<notin> set (drop (Suc b) (snr_list self))" by blast
  from template_loop_pairs [OF lp] a b obtain out_i wb wb' entry where
    "output i = Some out_i" "files wb = files w" "out_i snr = Some entry"
    "combine_one H self path setup (mode_definitions self setup) et wb
       (0 + int a * int (length (snr_list self)) + int b + 1) i snr = Inr (entry, wb')"
    by (metis (no_types, lifting))
  with rd ps show ?thesis unfolding output_at_def by force
qed

section \<open>The small run, evaluated\<close>

lemmas format_defs = str_int_def digits_of.simps digit_char_def fmt_1f_def round_half_even_def
  os_path_join_def signal_filename_def continuum_filename_def bands_def

lemma example_load_arms:
  "load_arms example_world ''out'' ''LRS'' example_definitions 0 20
     = Inr [example_blue, example_green, example_red]"
  "load_arms example_world_no_continuum ''out'' ''LRS'' example_definitions 0 20
     = Inr [example_blue, example_green, example_red]"
  by (simp_all add: load_arms_def load_band_def fits_open_table_def example_world_def
        example_world_no_continuum_def example_signal_files_def example_definitions_def
        example_fourfs_def format_defs upt_rec)

lemma example_load_continuum:
  "load_continuum example_world ''out'' ''LRS'' 0
     = Inr [example_blue_c, example_green_c, example_red_c]"
  by (simp add: load_continuum_def fits_open_table_def example_world_def
        example_signal_files_def example_continuum_files_def format_defs)

lemma example_have_continuum:
  "continuum_filename ''out'' 0 ''LRS'' (bands ! 0) \<in> dom (files example_world)"
  "continuum_filename ''out'' 0 ''LRS'' (bands ! 0) \<notin> dom (files example_world_no_continuum)"
  by (simp_all add: example_world_def example_world_no_continuum_def example_signal_files_def
        example_continuum_files_def format_defs dom_def)

lemma example_cut:
  "filter blue_window example_blue = [px 5000 13 4 1 10]"
  "filter green_window example_green = [px 6000 3 2 1 10]"
  "filter red_window example_red = [px 8000 1 6 4 10]"
  "filter blue_window example_blue_c = [px 5000 8 8 0 250]"
  "filter green_window example_green_c = [px 6000 4 4 0 250]"
  "filter red_window example_red_c = [px 8000 2 2 0 250]"
  by (simp_all add: blue_window_def green_window_def red_window_def example_blue_def
        example_green_def example_red_def example_blue_c_def example_green_c_def
        example_red_c_def px_def)

lemma example_bad_pixels:
  "remove_bad_pixels [Float 3, Float 1, Float (- (1 / 2))] = [Float 0, Float 1, Float 0]"
  by (simp add: remove_bad_pixels_def np_where_def upt_rec)

lemma example_raw:
  "continuum_normalise example_world ''out'' ''LRS'' 0 [Float 12, Float 2, Float (- 3)]
     [[Float 4], [Float 2], [Float 6]] = Inr [Float 3, Float 1, Float (- (1 / 2))]"
  by (simp add: continuum_normalise_def example_load_continuum
     cut_arms_def example_cut stitch_continuum_def take_arms3 px_def rescale_continuum_def py_max_def
     np_concatenate_def np_binop_def inf_signed_def del: map_map)

lemma example_run:
  "\<exists>entry w'. combine_one length example_fourfs ''out'' ''LRS'' example_definitions et
      example_world 1 0 20 = Inr (entry, w')"
  unfolding combine_one_def example_load_arms bindE_Inr stitch_arms3
  apply (simp add: normalised_fluxes_def example_have_continuum example_raw
     cut_arms_def example_cut px_def flux_of_def del: map_map)
  apply (simp add: attach_metadata_def example_fourfs_def snr_definition_label_def example_definitions_def
     exposure_get_def)
  apply (simp add: make_outputs_def np_binop_def dict_copy_def dict_new_def Let_def example_bad_pixels)
  done

section \<open>Claims about one (template, SNR) pair\<close>

text \<open>
  Claim C1. In the low-resolution mode, whenever the body of the combiner's loop returns,
  the output spectrum consists of the pixels of the blue arm with wavelength up to
  5327.7, then those of the green arm strictly above 5327.7 and up to 7031.7, then those
  of the red arm strictly above 7031.7, in this order (wavelengths, sky-subtracted
  fluxes and errors alike); the arms are the three tables that \<open>load_arms\<close> reads. If the
  wavelengths of each arm are ascending within its window, so are the output
  wavelengths, for the non-strict and for the strict order.
\<close>

theorem lrs_arm_stitching:
  assumes "combine_one H self path ''LRS'' sd et w rc i snr = Inr (entry, w')"
  shows "\<exists>b g r. load_arms w path ''LRS'' sd i snr = Inr [b, g, r]
     \<and> wavelengths (spectrum entry)
         = map LAMBDA (filter blue_window b @ filter green_window g @ filter red_window r)
     \<and> values_arr (spectrum entry)
         = map flux_of (filter blue_window b @ filter green_window g @ filter red_window r)
     \<and> value_errors (spectrum entry)
         = map (\<lambda>p. fdiv (flux_of p) (SNR p))
             (filter blue_window b @ filter green_window g @ filter red_window r)
     \<and> (sorted_wrt fle (map LAMBDA (filter blue_window b))
          \<and> sorted_wrt fle (map LAMBDA (filter green_window g))
          \<and> sorted_wrt fle (map LAMBDA (filter red_window r))
        \<longrightarrow> sorted_wrt fle (wavelengths (spectrum entry)))
     \<and> (sorted_wrt (\<lambda>x y. fgt y x) (map LAMBDA (filter blue_window b))
          \<and> sorted_wrt (\<lambda>x y. fgt y x) (map LAMBDA (filter green_window g))
          \<and> sorted_wrt (\<lambda>x y. fgt y x) (map LAMBDA (filter red_window r))
        \<longrightarrow> sorted_wrt (\<lambda>x y. fgt y x) (wavelengths (spectrum entry)))"
proof -
  from combine_one_Inr [OF assms] obtain b g r where
    arms: "load_arms w path ''LRS'' sd i snr = Inr [b, g, r]"
    and wl: "wavelengths (spectrum entry) = map LAMBDA (concat (cut_arms ''LRS'' [b, g, r]))"
    and fx: "values_arr (spectrum entry) = map flux_of (concat (cut_arms ''LRS'' [b, g, r]))"
    and er: "value_errors (spectrum entry)
               = map (\<lambda>p. fdiv (flux_of p) (SNR p)) (concat (cut_arms ''LRS'' [b, g, r]))"
    by blast
  let ?px = "filter blue_window b @ filter green_window g @ filter red_window r"
  have cut: "concat (cut_arms ''LRS'' [b, g, r]) = ?px"
    by (simp add: cut_arms_def)
  have s1: "sorted_wrt fle (map LAMBDA (filter blue_window b))
          \<and> sorted_wrt fle (map LAMBDA (filter green_window g))
          \<and> sorted_wrt fle (map LAMBDA (filter red_window r))
        \<longrightarrow> sorted_wrt fle (map LAMBDA ?px)"
    using stitched_sorted [of fle b g r] window_order by blast
  have s2: "sorted_wrt (\<lambda>x y. fgt y x) (map LAMBDA (filter blue_window b))
          \<and> sorted_wrt (\<lambda>x y. fgt y x) (map LAMBDA (filter green_window g))
          \<and> sorted_wrt (\<lambda>x y. fgt y x) (map LAMBDA (filter red_window r))
        \<longrightarrow> sorted_wrt (\<lambda>x y. fgt y x) (map LAMBDA ?px)"
    using stitched_sorted [of "\<lambda>x y. fgt y x" b g r] window_order by blast
  show ?thesis
    unfolding wl fx er cut using arms s1 s2 by blast
qed

theorem lrs_arm_stitching_witness:
  "\<exists>entry w'. combine_one length example_fourfs ''out'' ''LRS'' example_definitions Map.empty
                 example_world 1 0 20 = Inr (entry, w')
     \<and> wavelengths (spectrum entry) = [Float 5000, Float 6000, Float 8000]
     \<and> values_arr (spectrum entry) = [Float 12, Float 2, Float (- 3)]
     \<and> sorted_wrt fle (wavelengths (spectrum entry))
     \<and> sorted_wrt (\<lambda>x y. fgt y x) (wavelengths (spectrum entry))"
proof -
  from example_run obtain entry w' where
    run: "combine_one length example_fourfs ''out'' ''LRS'' example_definitions Map.empty
            example_world 1 0 20 = Inr (entry, w')" by blast
  from lrs_arm_stitching [OF run] have
    "wavelengths (spectrum entry) = [Float 5000, Float 6000, Float 8000]
     \<and> values_arr (spectrum entry) = [Float 12, Float 2, Float (- 3)]
     \<and> sorted_wrt fle (wavelengths (spectrum entry))
     \<and> sorted_wrt (\<lambda>x y. fgt y x) (wavelengths (spectrum entry))"
    by (simp add: example_load_arms example_cut px_def flux_of_def)
  with run show ?thesis by blast
qed

text \<open>
  Claim C3. For every continuum-normalised output spectrum of the combiner, with \<open>raw\<close> the
  ratio computed before the remediation: the values have the length of \<open>raw\<close>, a pixel
  whose raw value is above 2.0 or not above 0.0 is exactly 0, and every other pixel has
  its raw value (a NaN stays: it compares neither way).
\<close>

theorem bad_pixels_reset:
  assumes "combine_one H self path setup sd et w rc i snr = Inr (entry, w')"
    and "spectrum_continuum_normalised entry = Some sc"
  shows "\<exists>b g r raw. load_arms w path setup sd i snr = Inr [b, g, r]
     \<and> continuum_normalise w path setup i (map flux_of (concat (cut_arms setup [b, g, r])))
          (map (map FLUENCE) (cut_arms setup [b, g, r])) = Inr raw
     \<and> length (values_arr sc) = length raw
     \<and> (\<forall>k < length raw. values_arr sc ! k =
           (if fgt (raw ! k) (Float 2.0) \<or> fle (raw ! k) (Float 0.0) then Float 0 else raw ! k))"
proof -
  from combine_one_Inr [OF assms(1)] assms(2) obtain b g r raw where
    "load_arms w path setup sd i snr = Inr [b, g, r]"
    "continuum_normalise w path setup i (map flux_of (concat (cut_arms setup [b, g, r])))
          (map (map FLUENCE) (cut_arms setup [b, g, r])) = Inr raw"
    "values_arr sc = remove_bad_pixels raw"
    by (auto split: if_splits)
  with remove_bad_pixels_spec [of raw] show ?thesis by auto
qed

theorem bad_pixels_reset_witness:
  "\<exists>entry w' sc. combine_one length example_fourfs ''out'' ''LRS'' example_definitions Map.empty
                 example_world 1 0 20 = Inr (entry, w')
     \<and> spectrum_continuum_normalised entry = Some sc
     \<and> continuum_normalise example_world ''out'' ''LRS'' 0 [Float 12, Float 2, Float (- 3)]
          [[Float 4], [Float 2], [Float 6]] = Inr [Float 3, Float 1, Float (- (1 / 2))]
     \<and> values_arr sc = [Float 0, Float 1, Float 0]"
proof -
  from example_run obtain entry w' where
    run: "combine_one length example_fourfs ''out'' ''LRS'' example_definitions Map.empty
            example_world 1 0 20 = Inr (entry, w')" by blast
  from combine_one_Inr [OF run] obtain sc where sc: "spectrum_continuum_normalised entry = Some sc"
    by (auto simp: example_have_continuum)
  from bad_pixels_reset [OF run sc]
  have len: "length (values_arr sc) = 3"
    and px: "\<forall>k<3. values_arr sc ! k =
           (if fgt ([Float 3, Float 1, Float (- (1 / 2))] ! k) (Float 2.0)
               \<or> fle ([Float 3, Float 1, Float (- (1 / 2))] ! k) (Float 0.0)
            then Float 0 else [Float 3, Float 1, Float (- (1 / 2))] ! k)"
    by (simp_all add: example_load_arms cut_arms_def example_cut px_def flux_of_def example_raw)
  from px have "values_arr sc ! 0 = Float 0" "values_arr sc ! 1 = Float 1" "values_arr sc ! 2 = Float 0"
    by simp_all
  with len have "values_arr sc = [Float 0, Float 1, Float 0]"
    by (simp add: list_eq_iff_nth_eq less_Suc_eq numeral_3_eq_3 numeral_2_eq_2)
  with run sc example_raw show ?thesis by blast
qed

section \<open>The run summary\<close>

lemma parse_summary_append:
  "parse_summary (pre @ post) e = bindE (parse_summary pre e) (parse_summary post)"
  by (induction pre arbitrary: e) (auto simp: bindE_def split: sum.splits)

lemmas parse_defs = py_split_def is_space_def py_int_unsigned_def is_digit_def digit_val_def
  digits_val_def py_float_unsigned_def lower_def py_exponent_def scale10_def

lemma example_words:
  "py_split ''3 template_0_SNR50.0 goodSNR50.0 15.0 100.0 120.5''
     = [''3'', ''template_0_SNR50.0'', ''goodSNR50.0'', ''15.0'', ''100.0'', ''120.5'']"
  "py_split ''2 template_0_SNR20.0 goodSNR20.0 15.0 100.0 nan''
     = [''2'', ''template_0_SNR20.0'', ''goodSNR20.0'', ''15.0'', ''100.0'', ''nan'']"
  "py_split ''1 template_0_SNR10.0 goodSNR10.0 15.0 100.0 60.25''
     = [''1'', ''template_0_SNR10.0'', ''goodSNR10.0'', ''15.0'', ''100.0'', ''60.25'']"
  "py_split ''# run object ruleset mag texp_dark texp''
     = [''#'', ''run'', ''object'', ''ruleset'', ''mag'', ''texp_dark'', ''texp'']"
  "py_split ''4FS summary'' = [''4FS'', ''summary'']"
  by (simp_all add: py_split_def is_space_def)

text \<open>
  Claim C5. A summary line with fewer than six whitespace-separated fields, or whose
  first field is not an integer, leaves the table of exposure times as it was and
  raises nothing, so the parse of a file is the parse of the file without that line.
  For a line that is kept, with run number \<open>r\<close> in its first field: a sixth field equal
  to \<open>nan\<close> records NaN under \<open>str(r)\<close>, and any other sixth field that parses as a float
  records that float under \<open>str(r)\<close>.
\<close>

theorem summary_line_cases:
  "(length (py_split line) < 6 \<or> py_int (py_split line ! 0) = None \<longrightarrow>
        summary_line line e = Inr e
      \<and> parse_summary (pre @ line # post) e = parse_summary (pre @ post) e)
   \<and> (6 \<le> length (py_split line) \<and> py_int (py_split line ! 0) = Some r \<longrightarrow>
        (py_split line ! 5 = ''nan'' \<longrightarrow> summary_line line e = Inr (e(str_int r \<mapsto> NaN)))
      \<and> (py_split line ! 5 \<noteq> ''nan'' \<longrightarrow>
           (\<forall>t. py_float (py_split line ! 5) = Some t \<longrightarrow>
                summary_line line e = Inr (e(str_int r \<mapsto> t)))))"
proof -
  have skip: "summary_line line e' = Inr e'"
    if "length (py_split line) < 6 \<or> py_int (py_split line ! 0) = None" for e'
    using that by (auto simp: summary_line_def Let_def)
  have "parse_summary (pre @ line # post) e = parse_summary (pre @ post) e"
    if "length (py_split line) < 6 \<or> py_int (py_split line ! 0) = None"
    using skip [OF that] by (simp add: parse_summary_append bindE_def split: sum.splits)
  moreover have "6 \<le> length (py_split line) \<and> py_int (py_split line ! 0) = Some r \<longrightarrow>
        (py_split line ! 5 = ''nan'' \<longrightarrow> summary_line line e = Inr (e(str_int r \<mapsto> NaN)))
      \<and> (py_split line ! 5 \<noteq> ''nan'' \<longrightarrow>
           (\<forall>t. py_float (py_split line ! 5) = Some t \<longrightarrow>
                summary_line line e = Inr (e(str_int r \<mapsto> t))))"
    by (auto simp: summary_line_def Let_def)
  ultimately show ?thesis using skip by blast
qed

theorem summary_line_cases_witness:
  "summary_line ''4FS summary'' Map.empty = Inr Map.empty
   \<and> parse_summary ([''3 template_0_SNR50.0 goodSNR50.0 15.0 100.0 120.5''] @ ''4FS summary''
                      # [''2 template_0_SNR20.0 goodSNR20.0 15.0 100.0 nan'']) Map.empty
       = parse_summary ([''3 template_0_SNR50.0 goodSNR50.0 15.0 100.0 120.5'']
                        @ [''2 template_0_SNR20.0 goodSNR20.0 15.0 100.0 nan'']) Map.empty
   \<and> summary_line ''# run object ruleset mag texp_dark texp'' Map.empty = Inr Map.empty
   \<and> summary_line ''3 template_0_SNR50.0 goodSNR50.0 15.0 100.0 120.5'' Map.empty
       = Inr [''3'' \<mapsto> Float 120.5]
   \<and> summary_line ''2 template_0_SNR20.0 goodSNR20.0 15.0 100.0 nan'' Map.empty
       = Inr [''2'' \<mapsto> NaN]"
  using summary_line_cases [of "''4FS summary''" Map.empty
          "[''3 template_0_SNR50.0 goodSNR50.0 15.0 100.0 120.5'']"
          "[''2 template_0_SNR20.0 goodSNR20.0 15.0 100.0 nan'']" 0]
        summary_line_cases [of "''# run object ruleset mag texp_dark texp''" Map.empty "[]" "[]" 0]
        summary_line_cases [of "''3 template_0_SNR50.0 goodSNR50.0 15.0 100.0 120.5''" Map.empty
          "[]" "[]" 3]
        summary_line_cases [of "''2 template_0_SNR20.0 goodSNR20.0 15.0 100.0 nan''" Map.empty
          "[]" "[]" 2]
  unfolding example_words
  by (simp add: parse_defs str_int_def digits_of.simps digit_char_def)

section \<open>Template renormalisation\<close>

lemma scale_factor_reference: "scale_factor self (Float (reference_magnitude self)) = Float 1"
  by (simp add: scale_factor_def)

text \<open>
  Claim C7. Whenever \<open>make_fits_spectral_template\<close> returns, it has computed the data to
  emit and the magnitude in the band (less the reddening when the magnitude is the
  unreddened one). If that magnitude equals the reference magnitude, the scale factor
  \<open>10^(-0.4 * (reference_magnitude - magnitude))\<close> is 1, the data written to the file are
  the data before the renormalisation, and the values of the input spectrum are as they
  were.
\<close>

theorem renormalisation_at_reference:
  assumes "make_fits_spectral_template H photometry self w s cn fname res co = Inr (w2, s1)"
  shows "\<exists>data in_place m.
           template_data s cn co = Inr (data, in_place)
         \<and> template_magnitude photometry self (fst (dict_new w Map.empty)) s
              (Spectrum H (wavelengths s) data (map (\<lambda>x. Float 0) (wavelengths s))
                 (Some (length (heap w)))) = Inr m
         \<and> (m = Float (reference_magnitude self) \<longrightarrow>
              scale_factor self m = Float 1
            \<and> (\<exists>hdu. files w2 (os_path_join (tmp_dir self) fname) = Some (TemplateFits hdu)
                     \<and> hdu_data hdu = data)
            \<and> values_arr s1 = values_arr s)"
  using assms
  by (auto simp: make_fits_spectral_template_def bindE_eq_Inr Let_def dict_new_def
        fits_writeto_def scale_factor_reference template_data_def
      split: prod.splits if_splits option.splits)

lemma example_template:
  "\<exists>w2 s1. make_fits_spectral_template length example_photometry example_fourfs example_world example_spectrum None
     ''template_1.fits'' (Some (Float 1)) False = Inr (w2, s1)"
  by (simp add: make_fits_spectral_template_def template_data_def example_spectrum_def Spectrum_def
     np_min_def fmin_def dict_new_def template_magnitude_def example_photometry_def example_fourfs_def
     fits_writeto_def example_world_def example_signal_files_def example_continuum_files_def os_path_join_def
     Let_def scale_factor_def np_mean_def fadd_def header_value_def)

theorem renormalisation_at_reference_witness:
  "\<exists>w2 s1 hdu. make_fits_spectral_template length example_photometry example_fourfs example_world
       example_spectrum None ''template_1.fits'' (Some (Float 1)) False = Inr (w2, s1)
     \<and> scale_factor example_fourfs (Float 15) = Float 1
     \<and> files w2 ''/tmp/4fs_1_x/template_1.fits'' = Some (TemplateFits hdu)
     \<and> hdu_data hdu = [Float 2, Float 3]
     \<and> values_arr s1 = [Float 2, Float 3]"
proof -
  from example_template obtain w2 s1 where
    run: "make_fits_spectral_template length example_photometry example_fourfs example_world
       example_spectrum None ''template_1.fits'' (Some (Float 1)) False = Inr (w2, s1)" by blast
  from renormalisation_at_reference [OF run]
  have "scale_factor example_fourfs (Float 15) = Float 1
     \<and> (\<exists>hdu. files w2 ''/tmp/4fs_1_x/template_1.fits'' = Some (TemplateFits hdu)
     \<and> hdu_data hdu = [Float 2, Float 3])
     \<and> values_arr s1 = [Float 2, Float 3]"
    by (simp add: template_data_def template_magnitude_def example_photometry_def example_spectrum_def
          Spectrum_def example_fourfs_def os_path_join_def)
  with run show ?thesis by blast
qed

section \<open>Run numbers and exposure times\<close>

lemma digit_val_digit_char: "d < 10 \<Longrightarrow> digit_val (digit_char d) = Some d"
proof -
  assume "d < 10"
  then have "d \<in> {0, 1, 2, 3, 4, 5, 6, 7, 8, 9}" by auto
  then show ?thesis
    by (auto simp: digit_val_def digit_char_def)
qed

lemma digits_val_snoc:
  "digits_val (ds @ [c]) = 10 * digits_val ds + (case digit_val c of Some d \<Rightarrow> d | None \<Rightarrow> 0)"
  by (simp add: digits_val_def)

lemma digits_val_single: "digits_val [c] = (case digit_val c of Some d \<Rightarrow> d | None \<Rightarrow> 0)"
  by (simp add: digits_val_def)

lemma digits_val_digits_of: "digits_val (digits_of n) = n"
proof (induction n rule: digits_of.induct)
  case (1 n)
  show ?case
  proof (cases "n < 10")
    case True
    then show ?thesis
      by (subst digits_of.simps) (simp add: digits_val_single digit_val_digit_char)
  next
    case False
    with 1 have "digits_val (digits_of (n div 10)) = n div 10" by simp
    with False show ?thesis
      by (subst digits_of.simps) (simp add: digits_val_snoc digit_val_digit_char)
  qed
qed

lemma digit_char_not_minus: "d < 10 \<Longrightarrow> digit_char d \<noteq> CHR ''-''"
  using digit_val_digit_char [of d] by (auto simp: digit_val_def)

lemma digits_of_no_minus: "CHR ''-'' \<notin> set (digits_of n)"
proof (induction n rule: digits_of.induct)
  case (1 n)
  show ?case
  proof (cases "n < 10")
    case True
    with digit_char_not_minus [of n] show ?thesis by (subst digits_of.simps) auto
  next
    case False
    with 1 have "CHR ''-'' \<notin> set (digits_of (n div 10))" by simp
    moreover have "digit_char (n mod 10) \<noteq> CHR ''-''" by (simp add: digit_char_not_minus)
    ultimately show ?thesis using False by (subst digits_of.simps) auto
  qed
qed

lemma digits_of_nonempty: "digits_of n \<noteq> []"
  by (subst digits_of.simps) simp

lemma str_int_inj: "str_int i = str_int j \<Longrightarrow> i = j"
proof -
  assume eq: "str_int i = str_int j"
  have nn: "digits_of a \<noteq> CHR ''-'' # digits_of b" for a b
    using digits_of_no_minus [of a] by (metis list.set_intros(1))
  have nn': "CHR ''-'' # digits_of b \<noteq> digits_of a" for a b
    using nn [of a b] by simp
  have inj: "digits_of a = digits_of b \<Longrightarrow> a = b" for a b
    by (metis digits_val_digits_of)
  show ?thesis
  proof (cases "i < 0"; cases "j < 0")
    assume "i < 0" "j < 0"
    with eq have "nat (- i) = nat (- j)" by (auto simp: str_int_def dest: inj)
    with \<open>i < 0\<close> \<open>j < 0\<close> show ?thesis by simp
  next
    assume "i < 0" "\<not> j < 0"
    with eq nn' show ?thesis by (auto simp: str_int_def)
  next
    assume "\<not> i < 0" "j < 0"
    with eq nn show ?thesis by (auto simp: str_int_def)
  next
    assume "\<not> i < 0" "\<not> j < 0"
    with eq have "nat i = nat j" by (auto simp: str_int_def dest: inj)
    with \<open>\<not> i < 0\<close> \<open>\<not> j < 0\<close> show ?thesis by simp
  qed
qed

lemma summary_line_run:
  "summary_line line e = Inr e' \<Longrightarrow>
     e' = (case line_run line of None \<Rightarrow> e
           | Some r \<Rightarrow> e(str_int r := line_exposure line))
     \<and> (line_run line \<noteq> None \<longrightarrow> line_exposure line \<noteq> None)"
  by (auto simp: summary_line_def line_run_def line_exposure_def Let_def bindE_eq_Inr
        split: option.splits if_splits)

lemma parse_summary_lookup:
  "parse_summary summary e = Inr et \<Longrightarrow>
     et (str_int r) = (case filter (\<lambda>line. line_run line = Some r) summary of
                         [] \<Rightarrow> e (str_int r)
                       | line # rest \<Rightarrow> line_exposure (last (line # rest)))"
proof (induction summary arbitrary: e)
  case Nil
  then show ?case by simp
next
  case (Cons l ls)
  from Cons.prems obtain e1 where l: "summary_line l e = Inr e1" and ls: "parse_summary ls e1 = Inr et"
    by (auto simp: bindE_eq_Inr)
  note IH = Cons.IH [OF ls]
  note sl = summary_line_run [OF l]
  show ?case
  proof (cases "line_run l = Some r")
    case True
    with sl have "e1 (str_int r) = line_exposure l" by simp
    with IH True show ?thesis by (simp split: list.splits)
  next
    case False
    with sl have "e1 (str_int r) = e (str_int r)"
      by (auto split: option.splits dest: str_int_inj)
    with IH False show ?thesis by (auto split: list.splits)
  qed
qed

lemma parse_summary_exposure:
  assumes "parse_summary summary Map.empty = Inr et"
  shows "exposure_get et r = summary_exposure summary r"
proof (cases "filter (\<lambda>line. line_run line = Some r) summary")
  case Nil
  with parse_summary_lookup [OF assms, of r] show ?thesis
    by (simp add: summary_exposure_def exposure_get_def)
next
  case (Cons l ls)
  with parse_summary_lookup [OF assms, of r] show ?thesis
    by (simp add: summary_exposure_def exposure_get_def)
qed

section \<open>The heap in the combiner\<close>

lemma frame_refl: "frame S w w"
  by (simp add: frame_def)

lemma frame_trans: "frame S w w1 \<Longrightarrow> frame S w1 w2 \<Longrightarrow> frame S w w2"
  by (auto simp: frame_def)

lemma frame_mono: "S \<subseteq> T \<Longrightarrow> frame S w w' \<Longrightarrow> frame T w w'"
  by (auto simp: frame_def)

lemma dict_set_frame: "a \<in> S \<Longrightarrow> frame S w (dict_set w a k v)"
  by (auto simp: frame_def dict_set_def intro!: nth_list_update_neq)

lemma dict_set_length [simp]: "length (heap (dict_set w a k v)) = length (heap w)"
  by (simp add: dict_set_def)

lemma dict_set_get:
  "a < length (heap w) \<Longrightarrow>
     (heap (dict_set w a k v) ! a) k' = (if k' = k then Some v else (heap w ! a) k')"
  by (simp add: dict_set_def)

lemma attach_metadata_Inr:
  assumes "attach_metadata self sd et w rc i snr = Inr (w1, meta)"
  shows "metadata_store self i = Some meta \<and> length (heap w1) = length (heap w)
     \<and> frame {meta} w w1
     \<and> (meta < length (heap w) \<longrightarrow>
          (heap w1 ! meta) ''exposure'' = Some (PyFloat (exposure_get et rc)))"
proof -
  from assms obtain label where m: "metadata_store self i = Some meta"
    and w1: "w1 = dict_set (dict_set (dict_set (dict_set (dict_set (dict_set w meta
                ''continuum_normalised'' (PyInt 0)) meta ''SNR'' (PyFloat (Float snr))) meta ''SNR_per''
                (PyStr (if snr_per_pixel self then ''pixel'' else ''A''))) meta ''magnitude''
                (PyFloat (Float (magnitude self)))) meta ''exposure''
                (PyFloat (exposure_get et rc))) meta ''snr_definition'' label"
    unfolding attach_metadata_def Let_def by (auto simp: bindE_eq_Inr split: option.splits)
  have "frame {meta} w w1"
    unfolding w1 by (intro frame_trans [OF _ dict_set_frame] dict_set_frame) simp_all
  moreover have "(heap w1 ! meta) ''exposure'' = Some (PyFloat (exposure_get et rc))"
    if "meta < length (heap w)"
    unfolding w1 using that by (simp add: dict_set_get)
  ultimately show ?thesis using m by (simp add: w1)
qed

lemma make_outputs_heap:
  assumes "make_outputs H w1 meta wl ff sf nf = Inr (entry, w')" and "meta < length (heap w1)"
  shows "frame {meta} w1 w'
     \<and> fresh_entry {..< length (heap w1)} w' entry
     \<and> (\<forall>t. (heap w1 ! meta) ''exposure'' = Some (PyFloat t) \<longrightarrow> exposure_recorded w' entry t)"
  using assms unfolding make_outputs_def dict_copy_def dict_new_def Spectrum_def
  by (cases nf; clarsimp simp: bindE_eq_Inr Let_def frame_def fresh_entry_def fresh_spectrum_def
        exposure_recorded_def exposure_of_spectrum_def dict_set_def nth_append nth_list_update)

lemma fresh_entry_mono: "S \<subseteq> T \<Longrightarrow> fresh_entry T w e \<Longrightarrow> fresh_entry S w e"
  by (auto simp: fresh_entry_def fresh_spectrum_def split: option.splits)

lemma entry_preserved:
  assumes "fresh_entry S w e" and "exposure_recorded w e t" and "frame S w w'"
  shows "fresh_entry S w' e \<and> exposure_recorded w' e t"
  using assms
  by (auto simp: fresh_entry_def fresh_spectrum_def exposure_recorded_def exposure_of_spectrum_def
        frame_def split: option.splits)

lemma combine_one_heap:
  assumes run: "combine_one H self path setup sd et w rc i snr = Inr (entry, w')"
    and ok: "ran (metadata_store self) \<subseteq> {..< length (heap w)}"
  shows "frame (ran (metadata_store self)) w w'
     \<and> fresh_entry {..< length (heap w)} w' entry
     \<and> exposure_recorded w' entry (exposure_get et rc)"
proof -
  from combine_one_stages [OF run] obtain wl ff sf nf w1 meta where
    am: "attach_metadata self sd et w rc i snr = Inr (w1, meta)"
    and mo: "make_outputs H w1 meta wl ff sf nf = Inr (entry, w')" by blast
  note a = attach_metadata_Inr [OF am]
  from a have "meta \<in> ran (metadata_store self)" by (auto simp: ran_def)
  with ok have lt: "meta < length (heap w)" by auto
  with a have lt1: "meta < length (heap w1)" by simp
  note b = make_outputs_heap [OF mo lt1]
  from a b have "frame {meta} w w'" by (blast intro: frame_trans)
  then have "frame (ran (metadata_store self)) w w'"
    using \<open>meta \<in> ran (metadata_store self)\<close> by (auto intro: frame_mono)
  moreover from a b have "fresh_entry {..< length (heap w)} w' entry" by simp
  moreover from a b lt have "exposure_recorded w' entry (exposure_get et rc)" by simp
  ultimately show ?thesis by blast
qed

lemma snr_loop_Inr:
  assumes "snr_loop H self path setup sd et i snrs (rc, out_i, w) = Inr (rc', out_i', w')"
    and "ran (metadata_store self) \<subseteq> {..< n0}" and "n0 \<le> length (heap w)"
  shows "rc' = rc + int (length snrs) \<and> frame (ran (metadata_store self)) w w'
     \<and> (\<forall>k. k \<notin> set snrs \<longrightarrow> out_i' k = out_i k)
     \<and> (\<forall>b < length snrs. snrs ! b \<notin> set (drop (Suc b) snrs) \<longrightarrow>
          (\<exists>entry. out_i' (snrs ! b) = Some entry \<and> fresh_entry {..< n0} w' entry
                  \<and> exposure_recorded w' entry (exposure_get et (rc + 1 + int b))))"
  using assms
proof (induction snrs arbitrary: rc out_i w)
  case Nil
  then show ?case by (simp add: frame_refl)
next
  case (Cons s rest)
  let ?S = "ran (metadata_store self)"
  from Cons.prems(1) obtain entry w1 where
    one: "combine_one H self path setup sd et w (rc + 1) i s = Inr (entry, w1)"
    and loop: "snr_loop H self path setup sd et i rest (rc + 1, out_i(s \<mapsto> entry), w1) = Inr (rc', out_i', w')"
    by (auto simp: bindE_eq_Inr)
  from Cons.prems(2,3) have ok: "?S \<subseteq> {..< length (heap w)}" by auto
  note h = combine_one_heap [OF one ok]
  from h have len1: "n0 \<le> length (heap w1)" using Cons.prems(3) by (simp add: frame_def)
  note IH = Cons.IH [OF loop Cons.prems(2) len1]
  from h Cons.prems(3) have fresh1: "fresh_entry {..< n0} w1 entry"
    by (auto intro: fresh_entry_mono [of "{..< n0}" "{..< length (heap w)}"])
  from IH have fr: "frame {..< n0} w1 w'" using Cons.prems(2) by (blast intro: frame_mono)
  from entry_preserved [OF fresh1 _ fr] h
  have keep: "fresh_entry {..< n0} w' entry \<and> exposure_recorded w' entry (exposure_get et (rc + 1))"
    by blast
  have 1: "rc' = rc + int (length (s # rest))" using IH by simp
  have 2: "frame ?S w w'" using h IH by (blast intro: frame_trans)
  have 3: "\<forall>k. k \<notin> set (s # rest) \<longrightarrow> out_i' k = out_i k" using IH by simp
  have 4: "\<exists>e. out_i' ((s # rest) ! b) = Some e \<and> fresh_entry {..< n0} w' e
                  \<and> exposure_recorded w' e (exposure_get et (rc + 1 + int b))"
    if "b < length (s # rest)" "(s # rest) ! b \<notin> set (drop (Suc b) (s # rest))" for b
  proof (cases b)
    case 0
    with that have "s \<notin> set rest" by simp
    with IH have "out_i' s = Some entry" by simp
    with keep 0 show ?thesis by simp
  next
    case (Suc b')
    from Suc that have "b' < length rest" "rest ! b' \<notin> set (drop (Suc b') rest)" by simp_all
    with IH obtain e where e: "out_i' (rest ! b') = Some e" "fresh_entry {..< n0} w' e"
      and r: "exposure_recorded w' e (exposure_get et (rc + 1 + 1 + int b'))" by blast
    have "rc + 1 + 1 + int b' = rc + 1 + int b" using Suc by simp
    with r have "exposure_recorded w' e (exposure_get et (rc + 1 + int b))" by (simp only:)
    moreover have "(s # rest) ! b = rest ! b'" using Suc by simp
    ultimately show ?thesis using e by (simp only:) blast
  qed
  from 1 2 3 4 show ?case by blast
qed

lemma template_loop_Inr:
  assumes "template_loop H self path setup sd et ids (rc, out, w) = Inr (rc', out', w')"
    and "ran (metadata_store self) \<subseteq> {..< n0}" and "n0 \<le> length (heap w)"
  shows "rc' = rc + int (length ids) * int (length (snr_list self))
     \<and> frame (ran (metadata_store self)) w w'
     \<and> (\<forall>k. k \<notin> set ids \<longrightarrow> out' k = out k)
     \<and> (\<forall>a < length ids. ids ! a \<notin> set (drop (Suc a) ids) \<longrightarrow>
          (\<exists>out_i. out' (ids ! a) = Some out_i
             \<and> (\<forall>b < length (snr_list self).
                   snr_list self ! b \<notin> set (drop (Suc b) (snr_list self)) \<longrightarrow>
                   (\<exists>entry. out_i (snr_list self ! b) = Some entry
                      \<and> fresh_entry {..< n0} w' entry
                      \<and> exposure_recorded w' entry
                           (exposure_get et (rc + int a * int (length (snr_list self)) + int b + 1))))))"
  using assms
proof (induction ids arbitrary: rc out w)
  case Nil
  then show ?case by (simp add: frame_refl)
next
  case (Cons i rest)
  let ?S = "ran (metadata_store self)"
  let ?n = "int (length (snr_list self))"
  from Cons.prems(1) obtain rc1 out_i w1 where
    inner: "snr_loop H self path setup sd et i (snr_list self) (rc, Map.empty, w) = Inr (rc1, out_i, w1)"
    and outer: "template_loop H self path setup sd et rest (rc1, out(i \<mapsto> out_i), w1) = Inr (rc', out', w')"
    by (auto simp: bindE_eq_Inr)
  note s = snr_loop_Inr [OF inner Cons.prems(2,3)]
  from s have rc1: "rc1 = rc + ?n" by simp
  from s Cons.prems(3) have len1: "n0 \<le> length (heap w1)" by (simp add: frame_def)
  note IH = Cons.IH [OF outer Cons.prems(2) len1]
  from IH have fr: "frame {..< n0} w1 w'" using Cons.prems(2) by (blast intro: frame_mono)
  have 1: "rc' = rc + int (length (i # rest)) * ?n" using IH rc1 by (simp add: algebra_simps)
  have 2: "frame ?S w w'" using s IH by (blast intro: frame_trans)
  have 3: "\<forall>k. k \<notin> set (i # rest) \<longrightarrow> out' k = out k" using IH by simp
  have 4: "\<exists>o_i. out' ((i # rest) ! a) = Some o_i
             \<and> (\<forall>b < length (snr_list self).
                   snr_list self ! b \<notin> set (drop (Suc b) (snr_list self)) \<longrightarrow>
                   (\<exists>entry. o_i (snr_list self ! b) = Some entry
                      \<and> fresh_entry {..< n0} w' entry
                      \<and> exposure_recorded w' entry (exposure_get et (rc + int a * ?n + int b + 1))))"
    if "a < length (i # rest)" "(i # rest) ! a \<notin> set (drop (Suc a) (i # rest))" for a
  proof (cases a)
    case 0
    with that have "i \<notin> set rest" by simp
    with IH have o: "out' i = Some out_i" by simp
    have "\<exists>entry. out_i (snr_list self ! b) = Some entry \<and> fresh_entry {..< n0} w' entry
            \<and> exposure_recorded w' entry (exposure_get et (rc + int a * ?n + int b + 1))"
      if "b < length (snr_list self)" "snr_list self ! b \<notin> set (drop (Suc b) (snr_list self))" for b
    proof -
      from s that obtain entry where e: "out_i (snr_list self ! b) = Some entry"
        "fresh_entry {..< n0} w1 entry" "exposure_recorded w1 entry (exposure_get et (rc + 1 + int b))"
        by blast
      have "rc + 1 + int b = rc + int a * ?n + int b + 1" using 0 by simp
      with e have "exposure_recorded w1 entry (exposure_get et (rc + int a * ?n + int b + 1))"
        by (simp only:)
      with entry_preserved [OF e(2) _ fr] e(1) show ?thesis by blast
    qed
    with o 0 show ?thesis by simp
  next
    case (Suc a')
    from Suc that have "a' < length rest" "rest ! a' \<notin> set (drop (Suc a') rest)" by simp_all
    with IH obtain o_i where o: "out' (rest ! a') = Some o_i"
      and es: "\<forall>b < length (snr_list self).
                   snr_list self ! b \<notin> set (drop (Suc b) (snr_list self)) \<longrightarrow>
                   (\<exists>entry. o_i (snr_list self ! b) = Some entry
                      \<and> fresh_entry {..< n0} w' entry
                      \<and> exposure_recorded w' entry (exposure_get et (rc1 + int a' * ?n + int b + 1)))"
      by blast
    have "rc1 + int a' * ?n + int b + 1 = rc + int a * ?n + int b + 1" for b
      using Suc rc1 by (simp add: algebra_simps)
    with es have "\<forall>b < length (snr_list self).
                   snr_list self ! b \<notin> set (drop (Suc b) (snr_list self)) \<longrightarrow>
                   (\<exists>entry. o_i (snr_list self ! b) = Some entry
                      \<and> fresh_entry {..< n0} w' entry
                      \<and> exposure_recorded w' entry (exposure_get et (rc + int a * ?n + int b + 1)))"
      by (simp only:)
    moreover have "(i # rest) ! a = rest ! a'" using Suc by simp
    ultimately show ?thesis using o by (simp only:) blast
  qed
  from 1 2 3 4 show ?case by blast
qed

section \<open>The run counter\<close>

lemma example_read_summary:
  "read_lines example_world (os_path_join ''out'' ''4FS_ETC_summary.txt'') = Inr example_summary"
  by (simp add: read_lines_def example_world_def example_signal_files_def os_path_join_def)

lemma example_parse_summary:
  "parse_summary example_summary Map.empty
     = Inr [''1'' \<mapsto> Float 60.25, ''2'' \<mapsto> NaN, ''3'' \<mapsto> Float 120.5]"
  unfolding example_summary_def
  by (simp add: summary_line_def example_words parse_defs str_int_def digits_of.simps digit_char_def)

lemma example_no_hrs_continuum:
  "continuum_filename ''out'' 0 ''HRS'' (bands ! 0) \<notin> dom (files example_world)"
  by (simp add: example_world_def example_signal_files_def example_continuum_files_def
        format_defs dom_def)

lemma example_three:
  "snr_list example_fourfs_three = [10, 20, 50]"
  "hrs_use_snr_definitions example_fourfs_three = [Some [], Some [], Some []]"
  "metadata_store example_fourfs_three 0 = Some 1"
  by (simp_all add: example_fourfs_three_def example_fourfs_def)

lemma example_hrs_pair:
  assumes "1 < length (heap w)" "files w = files example_world"
  shows "\<exists>entry w'. combine_one length example_fourfs_three ''out'' ''HRS''
                       [Some [], Some [], Some []] et w rc 0 snr = Inr (entry, w')
     \<and> files w' = files w \<and> length (heap w) < length (heap w')"
proof -
  have nc: "continuum_filename ''out'' 0 ''HRS'' (bands ! 0) \<notin> dom (files w)"
    unfolding assms(2) by (rule example_no_hrs_continuum)
  show ?thesis
    unfolding combine_one_def
    by (simp add: load_arms_def load_band_def upt_bands stitch_arms3 cut_arms_def
          normalised_fluxes_def nc attach_metadata_def example_three
          snr_definition_label_def make_outputs_def np_binop_def dict_copy_def dict_new_def
          Let_def dict_set_def)
qed

lemma example_hrs_run:
  "\<exists>outp w'. combine_spectra length example_fourfs_three example_world [0] ''out'' ''HRS''
      = Inr (outp, w')"
proof -
  let ?sd = "[Some [], Some [], Some []] :: string option list"
  from example_parse_summary obtain et where ps: "parse_summary example_summary Map.empty = Inr et"
    by blast
  have w0: "1 < length (heap example_world)" "files example_world = files example_world"
    by (simp_all add: example_world_def example_heap_def)
  from example_hrs_pair [OF w0, of et 1 10] obtain e1 w1 where
    1: "combine_one length example_fourfs_three ''out'' ''HRS'' ?sd et example_world 1 0 10 = Inr (e1, w1)"
    and w1: "files w1 = files example_world" "length (heap example_world) < length (heap w1)" by blast
  from w0 w1 have w1': "1 < length (heap w1)" by simp
  from example_hrs_pair [OF w1' w1(1), of et 2 20] obtain e2 w2 where
    2: "combine_one length example_fourfs_three ''out'' ''HRS'' ?sd et w1 2 0 20 = Inr (e2, w2)"
    and w2: "files w2 = files w1" "length (heap w1) < length (heap w2)" by blast
  from w1' w2 w1 have w2': "1 < length (heap w2)" "files w2 = files example_world" by simp_all
  from example_hrs_pair [OF w2', of et 3 50] obtain e3 w3 where
    3: "combine_one length example_fourfs_three ''out'' ''HRS'' ?sd et w2 3 0 50 = Inr (e3, w3)"
    by blast
  show ?thesis
    unfolding combine_spectra_def
    by (simp add: example_read_summary ps example_three 1 2 3)
qed

lemma example_summary_exposure: "summary_exposure example_summary 3 = Float 120.5"
  unfolding example_summary_def
  by (simp add: summary_exposure_def line_run_def line_exposure_def example_words parse_defs)

text \<open>
  Claim C4. The run counter starts at 0 and is incremented once for each template and
  SNR, so the pair of the template at position \<open>a\<close> and the SNR at position \<open>b\<close> runs with
  counter \<open>a * len(snr_list) + b + 1\<close>, the first pair with 1. Whenever the combiner
  returns, the output of that pair (the one kept in the result: no later pair has the
  same template id and SNR) has, in the metadata of both spectra, the exposure time of
  the summary line whose first field is that counter, and NaN when there is no such
  line. The references of the metadata store are those of allocated dictionaries.
\<close>

theorem run_counter_exposure:
  assumes run: "combine_spectra H self w ids path setup = Inr (output, w')"
    and store: "ran (metadata_store self) \<subseteq> {..< length (heap w)}"
    and a: "a < length ids" "ids ! a \<notin> set (drop (Suc a) ids)"
    and b: "b < length (snr_list self)" "snr_list self ! b \<notin> set (drop (Suc b) (snr_list self))"
  shows "\<exists>summary out_i entry.
       read_lines w (os_path_join path ''4FS_ETC_summary.txt'') = Inr summary
     \<and> output (ids ! a) = Some out_i \<and> out_i (snr_list self ! b) = Some entry
     \<and> exposure_recorded w' entry
          (summary_exposure summary (int a * int (length (snr_list self)) + int b + 1))"
proof -
  from run obtain summary et rc' where
    rd: "read_lines w (os_path_join path ''4FS_ETC_summary.txt'') = Inr summary"
    and ps: "parse_summary summary Map.empty = Inr et"
    and lp: "template_loop H self path setup
               (rev (if setup = ''LRS'' then lrs_use_snr_definitions self
                     else hrs_use_snr_definitions self)) et ids (0, Map.empty, w) = Inr (rc', output, w')"
    unfolding combine_spectra_def Let_def by (auto simp: bindE_eq_Inr)
  from template_loop_Inr [OF lp store order_refl] a b obtain out_i entry where
    "output (ids ! a) = Some out_i" "out_i (snr_list self ! b) = Some entry"
    "exposure_recorded w' entry
       (exposure_get et (0 + int a * int (length (snr_list self)) + int b + 1))"
    by blast
  with rd parse_summary_exposure [OF ps] show ?thesis by auto
qed

theorem run_counter_exposure_witness:
  "\<exists>outp w' out_i entry.
      combine_spectra length example_fourfs_three example_world [0] ''out'' ''HRS'' = Inr (outp, w')
    \<and> outp 0 = Some out_i \<and> out_i 50 = Some entry
    \<and> exposure_recorded w' entry (Float 120.5)"
proof -
  from example_hrs_run obtain outp w' where
    run: "combine_spectra length example_fourfs_three example_world [0] ''out'' ''HRS'' = Inr (outp, w')"
    by blast
  have store: "ran (metadata_store example_fourfs_three) \<subseteq> {..< length (heap example_world)}"
    by (simp add: example_fourfs_three_def example_fourfs_def example_world_def example_heap_def)
  have a: "0 < length [0::int]" "[0::int] ! 0 \<notin> set (drop (Suc 0) [0])" by simp_all
  have b: "2 < length (snr_list example_fourfs_three)"
    "snr_list example_fourfs_three ! 2 \<notin> set (drop (Suc 2) (snr_list example_fourfs_three))"
    by (simp_all add: example_three)
  from run_counter_exposure [OF run store a b]
  have "\<exists>out_i entry. outp 0 = Some out_i \<and> out_i 50 = Some entry
     \<and> exposure_recorded w' entry (Float 120.5)"
    by (simp add: example_read_summary example_summary_exposure example_three)
  with run show ?thesis by blast
qed

section \<open>A missing continuum output\<close>







section \<open>The continuum-normalised flux\<close>

lemma example_one_pixel_arms:
  "load_arms example_world_one_pixel ''out'' ''HRS'' (mode_definitions example_fourfs_blue_only ''HRS'') 0 20
     = Inr [example_blue, [], []]"
  "load_continuum example_world_one_pixel ''out'' ''HRS'' 0 = Inr [[px 5000 8 8 0 250], [], []]"
  "continuum_filename ''out'' 0 ''HRS'' (bands ! 0) \<in> dom (files example_world_one_pixel)"
  "read_lines example_world_one_pixel (os_path_join ''out'' ''4FS_ETC_summary.txt'') = Inr example_summary"
  by (simp_all add: load_arms_def load_band_def load_continuum_def fits_open_table_def upt_bands
        mode_definitions_def example_fourfs_blue_only_def example_fourfs_def read_lines_def
        example_world_one_pixel_def example_hrs_files_def format_defs dom_def)

lemma example_one_pixel_raw:
  "continuum_normalise example_world_one_pixel ''out'' ''HRS'' 0 [Float 12, Float 8]
     [[Float 4, Float 8], [], []] = Inr [Float (3 / 2), Float 1]"
  by (simp add: continuum_normalise_def example_one_pixel_arms stitch_continuum_def px_def
        rescale_continuum_def py_max_def np_concatenate_def np_binop_def)

lemma example_one_pixel_pair:
  "\<exists>entry w' sc. combine_one length example_fourfs_blue_only ''out'' ''HRS''
        (mode_definitions example_fourfs_blue_only ''HRS'') et example_world_one_pixel 1 0 20
      = Inr (entry, w')
     \<and> values_arr (spectrum entry) = [Float 12, Float 8]
     \<and> spectrum_continuum_normalised entry = Some sc
     \<and> values_arr sc = [Float (3 / 2), Float 1]"
proof -
  have md: "mode_definitions example_fourfs_blue_only ''HRS'' = [Some ''MEDIANSNR'', Some [], Some []]"
    by (simp add: mode_definitions_def example_fourfs_blue_only_def example_fourfs_def)
  have st: "metadata_store example_fourfs_blue_only 0 = Some 1"
    by (simp add: example_fourfs_blue_only_def example_fourfs_def)
  have rb: "remove_bad_pixels [Float (3 / 2), Float 1] = [Float (3 / 2), Float 1]"
    by (simp add: remove_bad_pixels_def np_where_def upt_rec)
  have "\<exists>entry w'. combine_one length example_fourfs_blue_only ''out'' ''HRS''
        (mode_definitions example_fourfs_blue_only ''HRS'') et example_world_one_pixel 1 0 20
      = Inr (entry, w')"
    unfolding combine_one_def example_one_pixel_arms bindE_Inr stitch_arms3
    apply (simp add: normalised_fluxes_def example_one_pixel_arms cut_arms_def example_blue_def
       px_def flux_of_def example_one_pixel_raw rb del: map_map)
    apply (simp add: attach_metadata_def md snr_definition_label_def py_join_def st)
    apply (simp add: make_outputs_def np_binop_def dict_copy_def dict_new_def Let_def)
    done
  then obtain entry w' where one: "combine_one length example_fourfs_blue_only ''out'' ''HRS''
        (mode_definitions example_fourfs_blue_only ''HRS'') et example_world_one_pixel 1 0 20
      = Inr (entry, w')" by blast
  from combine_one_Inr [OF one] have
    "values_arr (spectrum entry) = [Float 12, Float 8]
     \<and> (\<exists>sc. spectrum_continuum_normalised entry = Some sc \<and> values_arr sc = [Float (3 / 2), Float 1])"
    by (auto simp: example_one_pixel_arms cut_arms_def example_blue_def px_def flux_of_def
          example_one_pixel_raw rb)
  with one show ?thesis by blast
qed

lemma example_one_pixel_run:
  "\<exists>outp w' entry sc.
      combine_spectra length example_fourfs_blue_only example_world_one_pixel [0] ''out'' ''HRS''
        = Inr (outp, w')
    \<and> output_at outp 0 20 = Some entry
    \<and> values_arr (spectrum entry) = [Float 12, Float 8]
    \<and> spectrum_continuum_normalised entry = Some sc
    \<and> values_arr sc = [Float (3 / 2), Float 1]"
proof -
  from example_parse_summary obtain et where ps: "parse_summary example_summary Map.empty = Inr et"
    by blast
  from example_one_pixel_pair [of et] obtain entry w' sc where
    one: "combine_one length example_fourfs_blue_only ''out'' ''HRS''
        (mode_definitions example_fourfs_blue_only ''HRS'') et example_world_one_pixel 1 0 20
      = Inr (entry, w')"
    and v: "values_arr (spectrum entry) = [Float 12, Float 8]"
      "spectrum_continuum_normalised entry = Some sc" "values_arr sc = [Float (3 / 2), Float 1]"
    by blast
  have sl: "snr_list example_fourfs_blue_only = [20]"
    by (simp add: example_fourfs_blue_only_def example_fourfs_def)
  have "combine_spectra length example_fourfs_blue_only example_world_one_pixel [0] ''out'' ''HRS''
      = Inr (Map.empty(0 \<mapsto> Map.empty(20 \<mapsto> entry)), w')"
    unfolding combine_spectra_def Let_def mode_definitions_def [symmetric]
    by (simp add: example_one_pixel_arms ps sl one)
  with v show ?thesis by (auto simp: output_at_def)
qed

text \<open>
  Claim C2 as stated says that the continuum-normalised flux is the stitched signal flux
  divided pixel by pixel by the stitched continuum. In the high-resolution run where only
  the blue band has an SNR definition, the stitched signal has the two pixels 12 and 8
  and the stitched continuum, rescaled as the claim says, the one pixel 8: pixel by pixel
  there is one quotient, and the combiner returns two values, each pixel of the signal
  divided by the one pixel of the continuum.
\<close>

theorem continuum_division_counterexample:
  "\<not> isl (combine_spectra length example_fourfs_blue_only example_world_one_pixel [0] ''out'' ''HRS'')
   \<and> load_arms example_world_one_pixel ''out'' ''HRS''
        (mode_definitions example_fourfs_blue_only ''HRS'') 0 20 = Inr [example_blue, [], []]
   \<and> load_continuum example_world_one_pixel ''out'' ''HRS'' 0 = Inr [[px 5000 8 8 0 250], [], []]
   \<and> map flux_of example_blue = [Float 12, Float 8]
   \<and> rescaled_arm (map FLUENCE example_blue, map FLUENCE [px 5000 8 8 0 250]) [Float 8]
   \<and> map2 fdiv [Float 12, Float 8] [Float 8] = [Float (3 / 2)]
   \<and> map_option (\<lambda>entry. map_option values_arr (spectrum_continuum_normalised entry))
        (output_at (fst (projr (combine_spectra length example_fourfs_blue_only
                                   example_world_one_pixel [0] ''out'' ''HRS''))) 0 20)
      = Some (Some [Float (3 / 2), Float 1])"
proof -
  from example_one_pixel_run obtain outp w' entry sc where
    "combine_spectra length example_fourfs_blue_only example_world_one_pixel [0] ''out'' ''HRS''
        = Inr (outp, w')" "output_at outp 0 20 = Some entry"
    "spectrum_continuum_normalised entry = Some sc" "values_arr sc = [Float (3 / 2), Float 1]"
    by blast
  then show ?thesis
    by (simp add: example_one_pixel_arms example_blue_def px_def flux_of_def rescaled_arm_def
          is_peak_def)
qed

text \<open>
  Claim C2, as the code has it. Whenever the combiner returns, for every pair whose
  continuum output of the blue band exists the result holds a continuum-normalised
  spectrum. Its values are the bad-pixel remediation of the quotient \<open>raw\<close> of the
  stitched signal flux by the stitched continuum, as numpy divides arrays: pixel by
  pixel when both have the same number of pixels; otherwise every pixel of the signal
  by the only pixel of the continuum, or the only pixel of the signal by every pixel of
  the continuum. The stitched continuum is the concatenation, over the arms whose cut signal
  fluence is not empty, of the cut continuum fluence multiplied by a peak of the signal
  fluence and then divided by a peak of the continuum fluence.
\<close>

theorem continuum_recovery:
  assumes run: "combine_spectra H self w ids path setup = Inr (output, w')"
    and i: "i \<in> set ids" and snr: "snr \<in> set (snr_list self)"
    and present: "\<not> continuum_absent w path setup i"
  shows "\<exists>entry sc b g r cb cg cr parts raw.
       output_at output i snr = Some entry
     \<and> load_arms w path setup (mode_definitions self setup) i snr = Inr [b, g, r]
     \<and> load_continuum w path setup i = Inr [cb, cg, cr]
     \<and> list_all2 rescaled_arm
          (filter (\<lambda>(s, c). s \<noteq> [])
             (zip (map (map FLUENCE) (cut_arms setup [b, g, r]))
                  (map (map FLUENCE) (cut_arms setup [cb, cg, cr])))) parts
     \<and> numpy_divided (map flux_of (concat (cut_arms setup [b, g, r]))) (concat parts) raw
     \<and> spectrum_continuum_normalised entry = Some sc
     \<and> values_arr sc = remove_bad_pixels raw"
proof -
  from combine_spectra_pairs [OF run i snr] obtain et entry wb wb' rc where
    e: "output_at output i snr = Some entry" and f: "files wb = files w"
    and one: "combine_one H self path setup (mode_definitions self setup) et wb rc i snr
                = Inr (entry, wb')" by blast
  from present f have "continuum_filename path i setup (bands ! 0) \<in> dom (files wb)"
    by (auto simp: continuum_absent_def bands_def dom_def)
  with combine_one_Inr [OF one] obtain b g r raw sc where
    arms: "load_arms w path setup (mode_definitions self setup) i snr = Inr [b, g, r]"
    and raw: "continuum_normalise w path setup i (map flux_of (concat (cut_arms setup [b, g, r])))
                (map (map FLUENCE) (cut_arms setup [b, g, r])) = Inr raw"
    and sc: "spectrum_continuum_normalised entry = Some sc" "values_arr sc = remove_bad_pixels raw"
    unfolding load_arms_files [OF f] continuum_normalise_files [OF f] by auto
  from continuum_normalise_Inr [OF raw] e arms sc show ?thesis by blast
qed

lemma example_hrs_ready:
  "pair_ready example_world_hrs ''out'' ''HRS'' (mode_definitions example_fourfs_hrs ''HRS'') 0 20"
  "\<not> continuum_absent example_world_hrs ''out'' ''HRS'' 0"
  "load_arms example_world_hrs ''out'' ''HRS'' (mode_definitions example_fourfs_hrs ''HRS'') 0 20
     = Inr [example_blue, example_green, example_red]"
  "load_continuum example_world_hrs ''out'' ''HRS'' 0
     = Inr [example_blue_hc, example_green_hc, example_red_hc]"
  "read_lines example_world_hrs (os_path_join ''out'' ''4FS_ETC_summary.txt'') = Inr example_summary"
  by (simp_all add: pair_ready_def signal_outputs_present_def continuum_absent_def continuum_aligned_def
        mode_definitions_def example_fourfs_hrs_def example_fourfs_def example_world_hrs_def
        example_hrs_files_def read_lines_def
        load_arms_def load_band_def load_continuum_def fits_open_table_def upt_bands
        format_defs cut_arms_def example_blue_def example_green_def example_red_def
        example_blue_hc_def example_green_hc_def example_red_hc_def)

lemma example_summary_parses: "summary_parses example_summary"
  unfolding example_summary_def
  by (simp add: summary_parses_def line_run_def line_exposure_def example_words parse_defs)

lemma example_rescaled:
  "rescaled_arm ([Float 4, Float 8], [Float 4, Float 8]) p \<longleftrightarrow> p = [Float 4, Float 8]"
  "rescaled_arm ([Float 6, Float 2], [Float 4, Float 2]) p \<longleftrightarrow> p = [Float 6, Float 3]"
  "rescaled_arm ([Float 4, Float 6], [Float 1, Float 2]) p \<longleftrightarrow> p = [Float 3, Float 6]"
  by (auto simp: rescaled_arm_def is_peak_def)

theorem continuum_recovery_witness:
  "\<exists>output w' entry sc.
      combine_spectra length example_fourfs_hrs example_world_hrs [0] ''out'' ''HRS'' = Inr (output, w')
    \<and> output_at output 0 20 = Some entry
    \<and> spectrum_continuum_normalised entry = Some sc
    \<and> values_arr sc = [Float 0, Float 1, Float 1, Float (2 / 3), Float (4 / 3), Float 0]"
proof -
  have lab: "labelled (mode_definitions example_fourfs_hrs ''HRS'')"
    by (simp add: labelled_def mode_definitions_def example_fourfs_hrs_def example_fourfs_def)
  have stored: "\<forall>i\<in>set [0]. metadata_store example_fourfs_hrs i \<noteq> None"
    by (simp add: example_fourfs_hrs_def example_fourfs_def)
  have sl: "snr_list example_fourfs_hrs = [20]"
    by (simp add: example_fourfs_hrs_def example_fourfs_def)
  have ready: "\<forall>i\<in>set [0]. \<forall>snr\<in>set (snr_list example_fourfs_hrs).
      pair_ready example_world_hrs ''out'' ''HRS'' (mode_definitions example_fourfs_hrs ''HRS'') i snr"
    using example_hrs_ready(1) by (simp add: sl)
  from combine_spectra_returns [OF example_hrs_ready(5) example_summary_parses lab stored ready, of length]
  obtain outp w' where run: "combine_spectra length example_fourfs_hrs example_world_hrs [0]
        ''out'' ''HRS'' = Inr (outp, w')" by blast
  have i: "0 \<in> set [0 :: int]" and snr: "20 \<in> set (snr_list example_fourfs_hrs)"
    by (simp_all add: sl)
  from continuum_recovery [OF run i snr example_hrs_ready(2)]
  obtain entry sc parts raw where e: "output_at outp 0 20 = Some entry"
    and parts: "list_all2 rescaled_arm
          [([Float 4, Float 8], [Float 4, Float 8]), ([Float 6, Float 2], [Float 4, Float 2]),
           ([Float 4, Float 6], [Float 1, Float 2])] parts"
    and raw: "numpy_divided [Float 12, Float 8, Float 6, Float 2, Float 4, Float (- 3)] (concat parts) raw"
    and sc: "spectrum_continuum_normalised entry = Some sc" "values_arr sc = remove_bad_pixels raw"
    by (auto simp: example_hrs_ready cut_arms_def example_blue_def example_green_def example_red_def
          example_blue_hc_def example_green_hc_def example_red_hc_def px_def flux_of_def)
  from parts have "parts = [[Float 4, Float 8], [Float 6, Float 3], [Float 3, Float 6]]"
    by (auto simp: list_all2_Cons1 example_rescaled)
  with raw have "raw = [Float 3, Float 1, Float 1, Float (2 / 3), Float (4 / 3), Float (- (1 / 2))]"
    by (simp add: numpy_divided_def)
  with sc have "values_arr sc = [Float 0, Float 1, Float 1, Float (2 / 3), Float (4 / 3), Float 0]"
    by (simp add: remove_bad_pixels_def np_where_def upt_rec)
  with run e sc show ?thesis by blast
qed

section \<open>SpectrumArray\<close>

text \<open>
  Claim C10. For every SpectrumArray built by its constructor, with an error matrix of
  as many rows as the value matrix, and every index \<open>i\<close> with \<open>0 \<le> i\<close> below the number of
  spectra, \<open>extract_item\<close> returns a Spectrum whose wavelengths are the array's raster
  (with row \<open>i\<close> of the values and of the errors), so its raster hash is the array's; for
  any other index it fails its assertion.
\<close>

theorem extract_item_raster:
  "(0 \<le> i \<and> i < int (length v) \<and> length e = length v \<longrightarrow>
      (\<exists>s. extract_item H (SpectrumArray H w v e) i = Inr s \<and> wavelengths s = w
           \<and> values_arr s = v ! nat i \<and> value_errors s = e ! nat i
           \<and> raster_hash s = array_raster_hash (SpectrumArray H w v e)))
   \<and> (\<not> (0 \<le> i \<and> i < int (length v)) \<longrightarrow>
        extract_item H (SpectrumArray H w v e) i = Inl AssertionError)"
  by (auto simp: extract_item_def SpectrumArray_def update_raster_hash_def np_row_def
        bindE_def Spectrum_def)

theorem extract_item_raster_witness:
  "(\<exists>s. extract_item length (SpectrumArray length [Float 5000, Float 5001]
            [[Float 1, Float 2], [Float 3, Float 4]] [[Float 0, Float 0], [Float 0, Float 0]]) 1 = Inr s
        \<and> wavelengths s = [Float 5000, Float 5001] \<and> values_arr s = [Float 3, Float 4]
        \<and> raster_hash s = array_raster_hash (SpectrumArray length [Float 5000, Float 5001]
            [[Float 1, Float 2], [Float 3, Float 4]] [[Float 0, Float 0], [Float 0, Float 0]]))
   \<and> extract_item length (SpectrumArray length [Float 5000, Float 5001]
            [[Float 1, Float 2], [Float 3, Float 4]] [[Float 0, Float 0], [Float 0, Float 0]]) 2
       = Inl AssertionError"
  using extract_item_raster [of 1 "[[Float 1, Float 2], [Float 3, Float 4]]"
          "[[Float 0, Float 0], [Float 0, Float 0]]" length "[Float 5000, Float 5001]"]
        extract_item_raster [of 2 "[[Float 1, Float 2], [Float 3, Float 4]]"
          "[[Float 0, Float 0], [Float 0, Float 0]]" length "[Float 5000, Float 5001]"]
  by auto

section \<open>The manifest builder\<close>








section \<open>Determinism of the manifest\<close>






section \<open>The metadata store\<close>










end
